theory Spec2Isabelle
  imports Main "HOL-Library.Word"
begin

unbundle bit_operations_syntax

section \<open>The C data model\<close>

text \<open>
  The driver (\<^verbatim>\<open>usbtmc.c\<close>, version 1.1) is modelled for an ILP32 kernel: \<^verbatim>\<open>int\<close>,
  \<^verbatim>\<open>long\<close>, \<^verbatim>\<open>size_t\<close> and \<^verbatim>\<open>ssize_t\<close> are 32 bits wide. A \<^verbatim>\<open>u8\<close> is an
  \<open>8 word\<close>; C \<^verbatim>\<open>int\<close>s are HOL integers, and the conversions between signed and
  unsigned 32-bit values are written out where the code performs them.
\<close>

type_synonym u8 = "8 word"

definition s32 :: "int \<Rightarrow> int" where
  "s32 x = (x + 2 ^ 31) mod 2 ^ 32 - 2 ^ 31"

definition u32 :: "int \<Rightarrow> int" where
  "u32 x = x mod 2 ^ 32"

text \<open>C division truncates towards zero.\<close>

definition c_div :: "int \<Rightarrow> int \<Rightarrow> int" where
  "c_div a b = sgn a * sgn b * (\<bar>a\<bar> div \<bar>b\<bar>)"

text \<open>Linux error numbers used by the driver.\<close>

definition EPERM :: int where "EPERM = 1"
definition EFAULT :: int where "EFAULT = 14"
definition EINVAL :: int where "EINVAL = 22"

section \<open>Constants of the header usbtmc.h\<close>

text \<open>
  The header \<^verbatim>\<open>usbtmc.h\<close> is not part of the sources. The constants whose values the
  specification fixes are definitions; the others (and the kernel's \<^verbatim>\<open>HZ\<close>) are the
  fields of a record that every function of the model takes as its first argument.
\<close>

record usbtmc_h =
  HZ :: int
  USBTMC_DEFAULT_TIMEOUT :: int
  USBTMC_MAX_READS_TO_CLEAR_BULK_IN :: int
  USBTMC_MINOR_NUMBERS :: int
  USBTMC_ATTRIB_VAL_OFF :: int
  USBTMC_ATTRIB_VAL_ON :: int
  USBTMC_ATTRIB_VAL_FREAD :: int
  USBTMC_ATTRIB_VAL_READ :: int

text \<open>Modelled from the spec: \<^verbatim>\<open>USBTMC_SIZE_IOBUFFER\<close> of usbtmc.h, "IOBUFFER = 2048 bytes".\<close>

definition USBTMC_SIZE_IOBUFFER :: int where
  "USBTMC_SIZE_IOBUFFER = 2048"

text \<open>Modelled from the spec: the status bytes of usbtmc.h, "SUCCESS=0x01, PENDING=0x02,
  FAILED=0x81".\<close>

definition USBTMC_STATUS_SUCCESS :: u8 where "USBTMC_STATUS_SUCCESS = 0x01"
definition USBTMC_STATUS_PENDING :: u8 where "USBTMC_STATUS_PENDING = 0x02"
definition USBTMC_STATUS_FAILED :: u8 where "USBTMC_STATUS_FAILED = 0x81"

text \<open>Modelled from the spec: the class request codes of usbtmc.h (section 6 of the
  specification).\<close>

definition USBTMC_REQUEST_INITIATE_ABORT_BULK_OUT :: u8 where
  "USBTMC_REQUEST_INITIATE_ABORT_BULK_OUT = 0x01"
definition USBTMC_REQUEST_CHECK_ABORT_BULK_OUT_STATUS :: u8 where
  "USBTMC_REQUEST_CHECK_ABORT_BULK_OUT_STATUS = 0x02"
definition USBTMC_REQUEST_INITIATE_ABORT_BULK_IN :: u8 where
  "USBTMC_REQUEST_INITIATE_ABORT_BULK_IN = 0x03"
definition USBTMC_REQUEST_CHECK_ABORT_BULK_IN_STATUS :: u8 where
  "USBTMC_REQUEST_CHECK_ABORT_BULK_IN_STATUS = 0x04"

text \<open>Modelled from the spec: the attribute identifiers of usbtmc.h, "a closed
  enumeration". The \<^verbatim>\<open>switch\<close> statements of the driver name thirteen of them; every
  other integer a caller may pass is \<open>ATTRIB_OTHER\<close> and reaches their \<^verbatim>\<open>default\<close>.\<close>

datatype attribute_id =
    USBTMC_ATTRIB_AUTO_ABORT_ON_ERROR
  | USBTMC_ATTRIB_READ_MODE
  | USBTMC_ATTRIB_TIMEOUT
  | USBTMC_ATTRIB_NUM_INSTRUMENTS
  | USBTMC_ATTRIB_MINOR_NUMBERS
  | USBTMC_ATTRIB_SIZE_IO_BUFFER
  | USBTMC_ATTRIB_DEFAULT_TIMEOUT
  | USBTMC_ATTRIB_DEBUG_MODE
  | USBTMC_ATTRIB_VERSION
  | USBTMC_ATTRIB_TERM_CHAR_ENABLED
  | USBTMC_ATTRIB_TERM_CHAR
  | USBTMC_ATTRIB_ADD_NL_ON_READ
  | USBTMC_ATTRIB_REM_NL_ON_WRITE
  | ATTRIB_OTHER int

text \<open>Modelled from the spec: \<^verbatim>\<open>struct usbtmc_attribute\<close> of usbtmc.h, "a tagged pair
  {attribute\_id, value}" whose value is a signed 32-bit integer.\<close>

record usbtmc_attribute =
  attribute :: attribute_id
  val :: int

definition USBTMC_VERSION :: int where
  "USBTMC_VERSION = 110"

section \<open>The session\<close>

text \<open>An endpoint descriptor of the interface's current setting.\<close>

record usb_endpoint_descriptor =
  bEndpointAddress :: u8
  bmAttributes :: u8
  wMaxPacketSize :: int

text \<open>
  \<^verbatim>\<open>struct usbtmc_device_data\<close>. The fields \<^verbatim>\<open>cdev\<close>, \<^verbatim>\<open>id\<close>, \<^verbatim>\<open>usb_dev\<close>,
  \<^verbatim>\<open>retry_buf\<close> and \<^verbatim>\<open>retry_count\<close> carry kernel handles or are never used; of
  \<^verbatim>\<open>intf\<close> the model keeps the endpoint descriptors of the current setting.
\<close>

record usbtmc_device_data =
  devno :: int
  intf :: "usb_endpoint_descriptor list"
  bulk_in :: int
  bulk_out :: int
  bTag :: u8
  eof :: u8
  timeout :: int
  term_char_enabled :: u8
  term_char :: u8
  fread :: int
  auto_abort :: int
  add_nl_on_read :: int
  rem_nl_on_write :: int

text \<open>
  The assignments at the end of \<^verbatim>\<open>usbtmc_probe\<close>, applied to the freshly allocated
  structure \<open>d\<close> (whose other fields, \<^verbatim>\<open>auto_abort\<close> among them, keep what the
  allocation left there). \<open>n\<close> is the minor number found for the instrument and
  \<open>major\<close> the driver's major number; \<^verbatim>\<open>MKDEV\<close> puts the major number above the 20
  bits of the minor number.
\<close>

definition usbtmc_probe :: "usbtmc_h \<Rightarrow> int \<Rightarrow> int \<Rightarrow> usb_endpoint_descriptor list \<Rightarrow>
    usbtmc_device_data \<Rightarrow> usbtmc_device_data" where
  "usbtmc_probe h major n eps d =
     d\<lparr>devno := major * 2 ^ 20 + n,
       intf := eps,
       bTag := 1,
       eof := 0,
       fread := 1,
       timeout := USBTMC_DEFAULT_TIMEOUT h,
       term_char_enabled := 0,
       term_char := 0x0A,
       add_nl_on_read := 0,
       rem_nl_on_write := 0\<rparr>"

text \<open>
  The bTag advance, written twice in the driver (in \<^verbatim>\<open>usbtmc_read\<close> and in
  \<^verbatim>\<open>usbtmc_write\<close>): \<^verbatim>\<open>(bTag)++; if(!(bTag)) (bTag)++;\<close> on a \<^verbatim>\<open>u8\<close>.
\<close>

definition increment_bTag :: "u8 \<Rightarrow> u8" where
  "increment_bTag b = (let b1 = b + 1 in if b1 = 0 then b1 + 1 else b1)"

section \<open>The attribute store\<close>

text \<open>
  \<^verbatim>\<open>usbtmc_ioctl_set_attribute\<close>: the return value and the session after the call.
  The assignments to the \<^verbatim>\<open>u8\<close> fields truncate the \<^verbatim>\<open>int\<close> value.
\<close>

definition usbtmc_ioctl_set_attribute ::
    "usbtmc_h \<Rightarrow> usbtmc_attribute \<Rightarrow> usbtmc_device_data \<Rightarrow> int \<times> usbtmc_device_data" where
  "usbtmc_ioctl_set_attribute h arg p =
     (case attribute arg of
        USBTMC_ATTRIB_AUTO_ABORT_ON_ERROR \<Rightarrow>
          if val arg \<noteq> USBTMC_ATTRIB_VAL_ON h \<and> val arg \<noteq> USBTMC_ATTRIB_VAL_OFF h
          then (- EINVAL, p)
          else (0, p\<lparr>auto_abort := val arg\<rparr>)
      | USBTMC_ATTRIB_READ_MODE \<Rightarrow>
          if val arg \<noteq> USBTMC_ATTRIB_VAL_FREAD h \<and> val arg \<noteq> USBTMC_ATTRIB_VAL_READ h
          then (- EINVAL, p)
          else (0, p\<lparr>fread := val arg\<rparr>)
      | USBTMC_ATTRIB_TIMEOUT \<Rightarrow>
          if val arg < 0 then (- EINVAL, p)
          else (0, p\<lparr>timeout := s32 (c_div (val arg) 1000 * HZ h)\<rparr>)
      | USBTMC_ATTRIB_TERM_CHAR_ENABLED \<Rightarrow>
          if val arg \<noteq> USBTMC_ATTRIB_VAL_ON h \<and> val arg \<noteq> USBTMC_ATTRIB_VAL_OFF h
          then (- EINVAL, p)
          else (0, p\<lparr>term_char_enabled := word_of_int (val arg)\<rparr>)
      | USBTMC_ATTRIB_TERM_CHAR \<Rightarrow>
          if val arg < 0 \<or> val arg > 255 then (- EINVAL, p)
          else (0, p\<lparr>term_char := word_of_int (val arg)\<rparr>)
      | USBTMC_ATTRIB_ADD_NL_ON_READ \<Rightarrow>
          if val arg \<noteq> USBTMC_ATTRIB_VAL_ON h \<and> val arg \<noteq> USBTMC_ATTRIB_VAL_OFF h
          then (- EINVAL, p)
          else (0, p\<lparr>add_nl_on_read := val arg\<rparr>)
      | USBTMC_ATTRIB_REM_NL_ON_WRITE \<Rightarrow>
          if val arg \<noteq> USBTMC_ATTRIB_VAL_ON h \<and> val arg \<noteq> USBTMC_ATTRIB_VAL_OFF h
          then (- EINVAL, p)
          else (0, p\<lparr>rem_nl_on_write := val arg\<rparr>)
      | _ \<Rightarrow> (- EINVAL, p))"

text \<open>
  \<^verbatim>\<open>usbtmc_ioctl_get_attribute\<close>: the return value and the attribute structure after
  the call. \<open>minors\<close> is the array \<^verbatim>\<open>usbtmc_minors\<close>, read at the indices
  \<open>1 .. USBTMC_MINOR_NUMBERS - 1\<close>. The driver is compiled without \<^verbatim>\<open>USBTMC_DEBUG\<close>.
\<close>

definition usbtmc_ioctl_get_attribute ::
    "usbtmc_h \<Rightarrow> (int \<Rightarrow> u8) \<Rightarrow> usbtmc_attribute \<Rightarrow> usbtmc_device_data \<Rightarrow>
     int \<times> usbtmc_attribute" where
  "usbtmc_ioctl_get_attribute h minors arg p =
     (case attribute arg of
        USBTMC_ATTRIB_AUTO_ABORT_ON_ERROR \<Rightarrow> (0, arg\<lparr>val := auto_abort p\<rparr>)
      | USBTMC_ATTRIB_READ_MODE \<Rightarrow> (0, arg\<lparr>val := fread p\<rparr>)
      | USBTMC_ATTRIB_TIMEOUT \<Rightarrow> (0, arg\<lparr>val := s32 (c_div (timeout p) (HZ h) * 1000)\<rparr>)
      | USBTMC_ATTRIB_NUM_INSTRUMENTS \<Rightarrow>
          (0, arg\<lparr>val := int (length (filter (\<lambda>n. minors n \<noteq> 0)
                                  [1 .. USBTMC_MINOR_NUMBERS h - 1]))\<rparr>)
      | USBTMC_ATTRIB_MINOR_NUMBERS \<Rightarrow> (0, arg\<lparr>val := USBTMC_MINOR_NUMBERS h\<rparr>)
      | USBTMC_ATTRIB_SIZE_IO_BUFFER \<Rightarrow> (0, arg\<lparr>val := USBTMC_SIZE_IOBUFFER\<rparr>)
      | USBTMC_ATTRIB_DEFAULT_TIMEOUT \<Rightarrow>
          (0, arg\<lparr>val := s32 (c_div (USBTMC_DEFAULT_TIMEOUT h) (HZ h) * 1000)\<rparr>)
      | USBTMC_ATTRIB_DEBUG_MODE \<Rightarrow> (0, arg\<lparr>val := 0\<rparr>)
      | USBTMC_ATTRIB_VERSION \<Rightarrow> (0, arg\<lparr>val := USBTMC_VERSION\<rparr>)
      | USBTMC_ATTRIB_TERM_CHAR_ENABLED \<Rightarrow> (0, arg\<lparr>val := uint (term_char_enabled p)\<rparr>)
      | USBTMC_ATTRIB_TERM_CHAR \<Rightarrow> (0, arg\<lparr>val := uint (term_char p)\<rparr>)
      | USBTMC_ATTRIB_ADD_NL_ON_READ \<Rightarrow> (0, arg\<lparr>val := add_nl_on_read p\<rparr>)
      | USBTMC_ATTRIB_REM_NL_ON_WRITE \<Rightarrow> (0, arg\<lparr>val := rem_nl_on_write p\<rparr>)
      | ATTRIB_OTHER _ \<Rightarrow> (- EINVAL, arg))"

section \<open>Memory and the USB core\<close>

text \<open>
  Kernel memory as seen from the pointer \<^verbatim>\<open>usbtmc_buffer\<close>: the byte at
  \<^verbatim>\<open>usbtmc_buffer + i\<close>. The allocation made in \<^verbatim>\<open>usbtmc_init\<close> is the first
  \<^verbatim>\<open>USBTMC_SIZE_IOBUFFER\<close> bytes; what follows is whatever the kernel keeps behind it.
\<close>

type_synonym mem = "nat \<Rightarrow> u8"

definition mem_write :: "nat \<Rightarrow> u8 list \<Rightarrow> mem \<Rightarrow> mem" where
  "mem_write off bs m = (\<lambda>i. if off \<le> i \<and> i < off + length bs then bs ! (i - off) else m i)"

definition mem_read :: "nat \<Rightarrow> nat \<Rightarrow> mem \<Rightarrow> u8 list" where
  "mem_read off n m = map m [off ..< off + n]"

text \<open>The four bytes \<^verbatim>\<open>x&255, (x>>8)&255, (x>>16)&255, (x>>24)&255\<close> of an \<^verbatim>\<open>int\<close>.\<close>

definition le32 :: "int \<Rightarrow> u8 list" where
  "le32 x = [word_of_int x, word_of_int (x div 2 ^ 8), word_of_int (x div 2 ^ 16),
             word_of_int (x div 2 ^ 24)]"

text \<open>
  The value \<^verbatim>\<open>b[0]+(b[1]<<8)+(b[2]<<16)+(b[3]<<24)\<close> as an \<^verbatim>\<open>unsigned long\<close>, the way
  \<^verbatim>\<open>usbtmc_read\<close> decodes the bytes 4..7 of a header.
\<close>

definition le32_decode :: "u8 list \<Rightarrow> int" where
  "le32_decode b = u32 (uint (b ! 0) + uint (b ! 1) * 2 ^ 8 + uint (b ! 2) * 2 ^ 16
                        + uint (b ! 3) * 2 ^ 24)"

text \<open>
  A transfer handed to the USB core (\<^verbatim>\<open>usb_bulk_msg\<close>, \<^verbatim>\<open>usb_control_msg\<close>): a bulk
  OUT with the endpoint and the bytes sent, a bulk IN with the endpoint and the
  maximal length, a control transfer with bRequest, bmRequestType, wValue, wIndex and
  wLength. The timeout argument and the device handle are left out.
\<close>

datatype urb =
    BULK_OUT int "u8 list"
  | BULK_IN int int
  | CONTROL u8 u8 int int int

text \<open>
  What the USB core gives back: the return value (negative on error) and, for an IN
  transfer, the bytes the device sent. The device is a function from the transfers
  submitted so far, the current one last, to the reply to the current one.
\<close>

record reply =
  retval :: int
  payload :: "u8 list"

type_synonym usb_bus = "urb list \<Rightarrow> reply"

text \<open>
  The globals of the driver that the I/O paths use, and the transfers submitted so far
  (\<open>urbs\<close>, which the driver does not hold: it records what went over the bus).
\<close>

record driver =
  usbtmc_buffer :: mem
  usbtmc_last_write_bTag :: u8
  usbtmc_last_read_bTag :: u8
  urbs :: "urb list"

text \<open>\<^verbatim>\<open>usb_bulk_msg\<close> on a send pipe, with \<^verbatim>\<open>usbtmc_buffer\<close> as the data: the return value.\<close>

definition usb_bulk_msg_snd :: "usb_bus \<Rightarrow> int \<Rightarrow> nat \<Rightarrow> driver \<Rightarrow> int \<times> driver" where
  "usb_bulk_msg_snd usb ep len g =
     (let log = urbs g @ [BULK_OUT ep (mem_read 0 len (usbtmc_buffer g))]
      in (retval (usb log), g\<lparr>urbs := log\<rparr>))"

text \<open>\<^verbatim>\<open>usb_bulk_msg\<close> on a receive pipe into \<^verbatim>\<open>usbtmc_buffer\<close>: the return value and
  \<^verbatim>\<open>actual\<close>. The core never stores more than \<open>len\<close> bytes.\<close>

definition usb_bulk_msg_rcv :: "usb_bus \<Rightarrow> int \<Rightarrow> nat \<Rightarrow> driver \<Rightarrow> int \<times> int \<times> driver" where
  "usb_bulk_msg_rcv usb ep len g =
     (let log = urbs g @ [BULK_IN ep (int len)];
          r = usb log;
          d = take len (payload r)
      in (retval r, int (length d),
          g\<lparr>urbs := log, usbtmc_buffer := mem_write 0 d (usbtmc_buffer g)\<rparr>))"

text \<open>\<^verbatim>\<open>usb_control_msg\<close> with \<^verbatim>\<open>usbtmc_buffer\<close> as the target buffer.\<close>

definition usb_control_msg ::
    "usb_bus \<Rightarrow> u8 \<Rightarrow> u8 \<Rightarrow> int \<Rightarrow> int \<Rightarrow> nat \<Rightarrow> driver \<Rightarrow> int \<times> driver" where
  "usb_control_msg usb request requesttype wvalue windex len g =
     (let log = urbs g @ [CONTROL request requesttype wvalue windex (int len)];
          r = usb log;
          d = take len (payload r)
      in (retval r, g\<lparr>urbs := log, usbtmc_buffer := mem_write 0 d (usbtmc_buffer g)\<rparr>))"

text \<open>Constants of \<^verbatim>\<open>linux/usb/ch9.h\<close>.\<close>

definition USB_DIR_IN_CLASS_ENDPOINT :: u8 where
  "USB_DIR_IN_CLASS_ENDPOINT = 0x80 OR 0x20 OR 0x02"

definition USB_DIR_OUT_STANDARD_ENDPOINT :: u8 where
  "USB_DIR_OUT_STANDARD_ENDPOINT = 0x00 OR 0x00 OR 0x02"

definition USB_REQ_CLEAR_FEATURE :: u8 where "USB_REQ_CLEAR_FEATURE = 0x01"
definition USB_ENDPOINT_HALT :: int where "USB_ENDPOINT_HALT = 0"

section \<open>ABORT\_BULK\_OUT\<close>

text \<open>
  \<^verbatim>\<open>usbtmc_ioctl_abort_bulk_out\<close> from the label
  \<^verbatim>\<open>usbtmc_abort_bulk_out_check_status\<close> on; \<open>n\<close> counts the status requests.
\<close>

function abort_bulk_out_check_status ::
    "usbtmc_h \<Rightarrow> usb_bus \<Rightarrow> usbtmc_device_data \<Rightarrow> int \<Rightarrow> driver \<Rightarrow> int \<times> driver" where
  "abort_bulk_out_check_status h usb p n g =
     (let r = usb_control_msg usb USBTMC_REQUEST_CHECK_ABORT_BULK_OUT_STATUS
                USB_DIR_IN_CLASS_ENDPOINT 0 (bulk_out p) 8 g;
          rv = fst r; g1 = snd r; n1 = n + 1
      in if rv < 0 then (rv, g1)
         else if usbtmc_buffer g1 0 = USBTMC_STATUS_SUCCESS then
           (let r2 = usb_control_msg usb USB_REQ_CLEAR_FEATURE USB_DIR_OUT_STANDARD_ENDPOINT
                       USB_ENDPOINT_HALT (bulk_out p) 0 g1
            in if fst r2 < 0 then (fst r2, snd r2) else (0, snd r2))
         else if usbtmc_buffer g1 0 = USBTMC_STATUS_PENDING
                 \<and> n1 < USBTMC_MAX_READS_TO_CLEAR_BULK_IN h then
           abort_bulk_out_check_status h usb p n1 g1
         else (- EPERM, g1))"
  by pat_completeness auto
termination
  by (relation "measure (\<lambda>(h, usb, p, n, g). nat (USBTMC_MAX_READS_TO_CLEAR_BULK_IN h - n))")
     auto

definition usbtmc_ioctl_abort_bulk_out ::
    "usbtmc_h \<Rightarrow> usb_bus \<Rightarrow> usbtmc_device_data \<Rightarrow> driver \<Rightarrow> int \<times> driver" where
  "usbtmc_ioctl_abort_bulk_out h usb p g =
     (let r = usb_control_msg usb USBTMC_REQUEST_INITIATE_ABORT_BULK_OUT
                USB_DIR_IN_CLASS_ENDPOINT (uint (usbtmc_last_write_bTag g)) (bulk_out p) 2 g;
          rv = fst r; g1 = snd r
      in if rv < 0 then (rv, g1)
         else if usbtmc_buffer g1 0 \<noteq> USBTMC_STATUS_SUCCESS then (- EPERM, g1)
         else abort_bulk_out_check_status h usb p 0 g1)"

section \<open>Writing a message\<close>

text \<open>
  \<^verbatim>\<open>copy_from_user(dst, buf+done, n)\<close>: \<open>ubuf\<close> holds the bytes of the user mapping
  that starts at \<open>buf\<close>. The result says whether all \<open>n\<close> bytes could be read, and
  gives the \<open>n\<close> bytes stored at the destination (what could not be read is zero).
\<close>

definition copy_from_user :: "u8 list \<Rightarrow> int \<Rightarrow> int \<Rightarrow> bool \<times> u8 list" where
  "copy_from_user ubuf off n =
     (let bs = (if off < 0 then [] else take (nat n) (drop (nat off) ubuf))
      in (0 \<le> off \<and> off + n \<le> int (length ubuf), bs @ replicate (nat n - length bs) 0))"

text \<open>
  One turn of the \<^verbatim>\<open>while(remaining>0)\<close> loop of \<^verbatim>\<open>usbtmc_write\<close>. The result is
  \<open>Inl\<close> of the value returned from inside the loop, or \<open>Inr\<close> of the new
  \<open>(remaining, done)\<close>, with the session and the driver state.
\<close>

definition write_round ::
    "usbtmc_h \<Rightarrow> usb_bus \<Rightarrow> u8 list \<Rightarrow> usbtmc_device_data \<Rightarrow> driver \<Rightarrow> int \<Rightarrow> int \<Rightarrow>
     (int + int \<times> int) \<times> usbtmc_device_data \<times> driver" where
  "write_round h usb ubuf p g remaining done =
     (let this_part = (if remaining > USBTMC_SIZE_IOBUFFER - 12
                       then USBTMC_SIZE_IOBUFFER - 12 else remaining);
          b8 = (if remaining > USBTMC_SIZE_IOBUFFER - 12 then 0 else 1);
          hdr = [1, bTag p, NOT (bTag p), 0] @ le32 this_part @ [b8, 0, 0, 0];
          c = copy_from_user ubuf done this_part;
          g1 = g\<lparr>usbtmc_buffer := mem_write 12 (snd c) (mem_write 0 hdr (usbtmc_buffer g))\<rparr>
      in if \<not> fst c then (Inl (- EFAULT), p, g1)
         else
           let this_part1 =
                 (if this_part = remaining
                     \<and> rem_nl_on_write p = USBTMC_ATTRIB_VAL_ON h
                     \<and> usbtmc_buffer g1 (nat (12 + this_part - 1)) = 0x0A
                  then this_part - 1 else this_part);
               n_bytes = (if this_part1 mod 4 \<noteq> 0
                          then 12 + this_part1 + (4 - this_part1 mod 4)
                          else 12 + this_part1);
               g2 = (if this_part1 mod 4 \<noteq> 0
                     then g1\<lparr>usbtmc_buffer :=
                            mem_write (nat (12 + this_part1))
                              (replicate (nat (n_bytes - (12 + this_part1))) 0)
                              (usbtmc_buffer g1)\<rparr>
                     else g1);
               r = usb_bulk_msg_snd usb (bulk_out p) (nat n_bytes) g2;
               g3 = (snd r)\<lparr>usbtmc_last_write_bTag := bTag p\<rparr>;
               p1 = p\<lparr>bTag := increment_bTag (bTag p)\<rparr>
           in if fst r < 0 then
                (Inl (fst r), p1,
                 if auto_abort p1 \<noteq> 0 then snd (usbtmc_ioctl_abort_bulk_out h usb p1 g3)
                 else g3)
              else (Inr (remaining - this_part1, done + this_part1), p1, g3))"

text \<open>
  The loop, with fuel: \<open>None\<close> when the fuel runs out before the loop ends. After the
  loop the function returns \<open>count\<close> (as an \<^verbatim>\<open>ssize_t\<close>).
\<close>

fun write_loop ::
    "usbtmc_h \<Rightarrow> usb_bus \<Rightarrow> u8 list \<Rightarrow> int \<Rightarrow> nat \<Rightarrow> usbtmc_device_data \<Rightarrow> driver \<Rightarrow>
     int \<Rightarrow> int \<Rightarrow> (int \<times> usbtmc_device_data \<times> driver) option" where
  "write_loop h usb ubuf count 0 p g remaining done =
     (if remaining > 0 then None else Some (s32 count, p, g))"
| "write_loop h usb ubuf count (Suc fuel) p g remaining done =
     (if remaining > 0 then
        (case write_round h usb ubuf p g remaining done of
           (Inl rv, p1, g1) \<Rightarrow> Some (rv, p1, g1)
         | (Inr (remaining1, done1), p1, g1) \<Rightarrow>
             write_loop h usb ubuf count fuel p1 g1 remaining1 done1)
      else Some (s32 count, p, g))"

text \<open>
  \<^verbatim>\<open>usbtmc_write\<close> on a session: \<open>ubuf\<close> and \<open>count\<close> are the caller's buffer and
  byte count (a \<^verbatim>\<open>size_t\<close>). Minor number 0 (\<open>devno = 0\<close>) is the driver itself.
\<close>

definition usbtmc_write ::
    "usbtmc_h \<Rightarrow> usb_bus \<Rightarrow> nat \<Rightarrow> u8 list \<Rightarrow> int \<Rightarrow> usbtmc_device_data \<Rightarrow> driver \<Rightarrow>
     (int \<times> usbtmc_device_data \<times> driver) option" where
  "usbtmc_write h usb fuel ubuf count p g =
     (if devno p = 0 then Some (- EPERM, p, g)
      else write_loop h usb ubuf count fuel (p\<lparr>eof := 0\<rparr>) g (s32 count) 0)"

section \<open>ABORT\_BULK\_IN\<close>

text \<open>
  The search for \<^verbatim>\<open>wMaxPacketSize\<close> of the bulk IN endpoint: the loop runs over all
  endpoints of the current setting, so the last descriptor with the address wins, and 0
  is left when there is none.
\<close>

definition get_wMaxPacketSize :: "usbtmc_device_data \<Rightarrow> int" where
  "get_wMaxPacketSize p =
     fold (\<lambda>e max_size. if uint (bEndpointAddress e) = bulk_in p then wMaxPacketSize e
                         else max_size) (intf p) 0"

text \<open>
  The first \<^verbatim>\<open>do ... while ((actual==max_size)&&(n<USBTMC_MAX_READS_TO_CLEAR_BULK_IN))\<close>
  loop, entered with the counter \<open>n\<close>. The result is \<open>Inl\<close> of the error returned from
  inside the loop, or \<open>Inr (n, actual)\<close> when the loop is left.
\<close>

function abort_bulk_in_drain ::
    "usbtmc_h \<Rightarrow> usb_bus \<Rightarrow> usbtmc_device_data \<Rightarrow> int \<Rightarrow> int \<Rightarrow> driver \<Rightarrow>
     (int + int \<times> int) \<times> driver" where
  "abort_bulk_in_drain h usb p max_size n g =
     (let r = usb_bulk_msg_rcv usb (bulk_in p) (nat USBTMC_SIZE_IOBUFFER) g;
          rv = fst r; actual = fst (snd r); g1 = snd (snd r); n1 = n + 1
      in if rv < 0 then (Inl rv, g1)
         else if actual = max_size \<and> n1 < USBTMC_MAX_READS_TO_CLEAR_BULK_IN h then
           abort_bulk_in_drain h usb p max_size n1 g1
         else (Inr (n1, actual), g1))"
  by pat_completeness auto
termination
  by (relation "measure (\<lambda>(h, usb, p, max_size, n, g).
                  nat (USBTMC_MAX_READS_TO_CLEAR_BULK_IN h - n))") auto

text \<open>
  The second loop, after a status of PENDING with data to read:
  \<^verbatim>\<open>do ... while ((actual=max_size)&&(n<USBTMC_MAX_READS_TO_CLEAR_BULK_IN))\<close>. Its
  condition assigns \<^verbatim>\<open>max_size\<close> to \<^verbatim>\<open>actual\<close> and tests the value assigned.
\<close>

function abort_bulk_in_drain_status ::
    "usbtmc_h \<Rightarrow> usb_bus \<Rightarrow> usbtmc_device_data \<Rightarrow> int \<Rightarrow> int \<Rightarrow> driver \<Rightarrow>
     (int + int \<times> int) \<times> driver" where
  "abort_bulk_in_drain_status h usb p max_size n g =
     (let r = usb_bulk_msg_rcv usb (bulk_in p) (nat USBTMC_SIZE_IOBUFFER) g;
          rv = fst r; g1 = snd (snd r); n1 = n + 1
      in if rv < 0 then (Inl rv, g1)
         else
           let actual = max_size
           in if actual \<noteq> 0 \<and> n1 < USBTMC_MAX_READS_TO_CLEAR_BULK_IN h then
                abort_bulk_in_drain_status h usb p max_size n1 g1
              else (Inr (n1, actual), g1))"
  by pat_completeness auto
termination
  by (relation "measure (\<lambda>(h, usb, p, max_size, n, g).
                  nat (USBTMC_MAX_READS_TO_CLEAR_BULK_IN h - n))") auto

text \<open>
  From the label \<^verbatim>\<open>usbtmc_abort_bulk_in_status\<close> on. The \<^verbatim>\<open>goto\<close> back to the label
  has no bound, so the function takes fuel: \<open>None\<close> when the fuel is used up.
\<close>

fun abort_bulk_in_status ::
    "usbtmc_h \<Rightarrow> usb_bus \<Rightarrow> nat \<Rightarrow> usbtmc_device_data \<Rightarrow> int \<Rightarrow> int \<Rightarrow> int \<Rightarrow> driver \<Rightarrow>
     (int \<times> driver) option" where
  "abort_bulk_in_status h usb 0 p max_size n actual g = None"
| "abort_bulk_in_status h usb (Suc fuel) p max_size n actual g =
     (let r = usb_control_msg usb USBTMC_REQUEST_CHECK_ABORT_BULK_IN_STATUS
                USB_DIR_IN_CLASS_ENDPOINT 0 (bulk_in p) 8 g;
          rv = fst r; g1 = snd r
      in if rv < 0 then Some (rv, g1)
         else if usbtmc_buffer g1 0 = USBTMC_STATUS_SUCCESS then Some (0, g1)
         else if usbtmc_buffer g1 0 \<noteq> USBTMC_STATUS_PENDING then Some (- EPERM, g1)
         else
           (case (if usbtmc_buffer g1 1 = 1
                  then abort_bulk_in_drain_status h usb p max_size n g1
                  else (Inr (n, actual), g1)) of
              (Inl rv2, g2) \<Rightarrow> Some (rv2, g2)
            | (Inr (n2, actual2), g2) \<Rightarrow>
                if actual2 = max_size then Some (- EPERM, g2)
                else abort_bulk_in_status h usb fuel p max_size n2 actual2 g2))"

definition usbtmc_ioctl_abort_bulk_in ::
    "usbtmc_h \<Rightarrow> usb_bus \<Rightarrow> nat \<Rightarrow> usbtmc_device_data \<Rightarrow> driver \<Rightarrow> (int \<times> driver) option" where
  "usbtmc_ioctl_abort_bulk_in h usb fuel p g =
     (let r = usb_control_msg usb USBTMC_REQUEST_INITIATE_ABORT_BULK_IN
                USB_DIR_IN_CLASS_ENDPOINT (uint (usbtmc_last_read_bTag g)) (bulk_in p) 2 g;
          rv = fst r; g1 = snd r
      in if rv < 0 then Some (rv, g1)
         else if usbtmc_buffer g1 0 = USBTMC_STATUS_FAILED then Some (0, g1)
         else if usbtmc_buffer g1 0 \<noteq> USBTMC_STATUS_SUCCESS then Some (- EPERM, g1)
         else
           let max_size = get_wMaxPacketSize p
           in if max_size = 0 then Some (- EPERM, g1)
              else
                (case abort_bulk_in_drain h usb p max_size 0 g1 of
                   (Inl rv1, g2) \<Rightarrow> Some (rv1, g2)
                 | (Inr (n, actual), g2) \<Rightarrow>
                     if actual = max_size then Some (- EPERM, g2)
                     else abort_bulk_in_status h usb fuel p max_size 0 actual g2))"

section \<open>The registry of instruments\<close>

text \<open>
  A C string is given by the bytes of the array it lives in; its characters are the
  bytes before the first zero. \<open>None\<close>: no zero inside the array, so that reading the
  string runs past the array.
\<close>

definition c_string :: "u8 list \<Rightarrow> u8 list option" where
  "c_string s = (if 0 \<in> set s then Some (takeWhile (\<lambda>c. c \<noteq> 0) s) else None)"

definition strlen :: "u8 list \<Rightarrow> int option" where
  "strlen s = map_option (\<lambda>cs. int (length cs)) (c_string s)"

text \<open>The strings of \<^verbatim>\<open>struct usb_device\<close> that the driver reads.\<close>

record usb_device =
  manufacturer :: "u8 list"
  product :: "u8 list"
  serial :: "u8 list"

text \<open>
  The arrays \<^verbatim>\<open>usbtmc_minors\<close> and \<^verbatim>\<open>usbtmc_devs\<close>, indexed by minor number; of an
  entry of \<^verbatim>\<open>usbtmc_devs\<close> the model keeps the strings of the USB device behind it.
\<close>

record registry =
  usbtmc_minors :: "int \<Rightarrow> u8"
  usbtmc_devs :: "int \<Rightarrow> usb_device"

section \<open>Reading a message\<close>

text \<open>
  User memory as seen from the pointer \<^verbatim>\<open>buf\<close>, with the number \<open>ulimit\<close> of bytes
  from \<^verbatim>\<open>buf\<close> on that the process may write. \<^verbatim>\<open>copy_to_user(buf+off, src, n)\<close>:
  whether all bytes could be stored, and the bytes that were.
\<close>

definition copy_to_user :: "nat \<Rightarrow> int \<Rightarrow> u8 list \<Rightarrow> bool \<times> u8 list" where
  "copy_to_user ulimit off bs =
     (0 \<le> off \<and> off + int (length bs) \<le> int ulimit,
      if off < 0 then [] else take (ulimit - nat off) bs)"

text \<open>
  One turn of the \<^verbatim>\<open>while(remaining>0)\<close> loop of \<^verbatim>\<open>usbtmc_read\<close>. The result is
  \<open>Inl\<close> of the value returned from inside the loop, or \<open>Inr\<close> of the new
  \<open>(remaining, done)\<close>, with the session, the driver state and the user memory;
  \<open>None\<close> when the automatic ABORT\_BULK\_IN does not come back within the fuel.
\<close>

definition read_round ::
    "usbtmc_h \<Rightarrow> usb_bus \<Rightarrow> nat \<Rightarrow> nat \<Rightarrow> usbtmc_device_data \<Rightarrow> driver \<Rightarrow> mem \<Rightarrow> int \<Rightarrow> int \<Rightarrow>
     ((int + int \<times> int) \<times> usbtmc_device_data \<times> driver \<times> mem) option" where
  "read_round h usb fuel ulimit p g umem remaining done =
     (let this_part = (if remaining > USBTMC_SIZE_IOBUFFER - 12 - 3
                       then USBTMC_SIZE_IOBUFFER - 12 - 3 else remaining);
          hdr = [2, bTag p, NOT (bTag p), 0] @ le32 (this_part - 12 - 3)
                  @ [term_char_enabled p * 2, term_char p, 0, 0];
          g1 = g\<lparr>usbtmc_buffer := mem_write 0 hdr (usbtmc_buffer g)\<rparr>;
          r = usb_bulk_msg_snd usb (bulk_out p) 12 g1;
          g2 = (snd r)\<lparr>usbtmc_last_write_bTag := bTag p\<rparr>;
          p1 = p\<lparr>bTag := increment_bTag (bTag p)\<rparr>
      in if fst r < 0 then
           Some (Inl (fst r), p1,
                 if auto_abort p1 \<noteq> 0 then snd (usbtmc_ioctl_abort_bulk_out h usb p1 g2)
                 else g2,
                 umem)
         else
           let r2 = usb_bulk_msg_rcv usb (bulk_in p1) (nat USBTMC_SIZE_IOBUFFER) g2;
               rv = fst r2;
               g3 = (snd (snd r2))\<lparr>usbtmc_last_read_bTag := bTag p1\<rparr>
           in if rv < 0 then
                (if auto_abort p1 \<noteq> 0 then
                   (case usbtmc_ioctl_abort_bulk_in h usb fuel p1 g3 of
                      None \<Rightarrow> None
                    | Some (_, g4) \<Rightarrow> Some (Inl rv, p1, g4, umem))
                 else Some (Inl rv, p1, g3, umem))
              else
                let n_characters = le32_decode (mem_read 4 4 (usbtmc_buffer g3));
                    c = copy_to_user ulimit done
                          (mem_read 12 (nat n_characters) (usbtmc_buffer g3));
                    umem1 = mem_write (nat done) (snd c) umem
                in if \<not> fst c then Some (Inl (- EFAULT), p1, g3, umem1)
                   else Some (Inr (if n_characters < USBTMC_SIZE_IOBUFFER then 0
                                   else remaining,
                                   s32 (done + n_characters)),
                              p1, g3, umem1))"

text \<open>The loop, with fuel; \<open>Inr done\<close> when the loop is left at its condition.\<close>

fun read_loop ::
    "usbtmc_h \<Rightarrow> usb_bus \<Rightarrow> nat \<Rightarrow> nat \<Rightarrow> usbtmc_device_data \<Rightarrow> driver \<Rightarrow> mem \<Rightarrow> int \<Rightarrow> int \<Rightarrow>
     ((int + int) \<times> usbtmc_device_data \<times> driver \<times> mem) option" where
  "read_loop h usb 0 ulimit p g umem remaining done =
     (if remaining > 0 then None else Some (Inr done, p, g, umem))"
| "read_loop h usb (Suc fuel) ulimit p g umem remaining done =
     (if remaining > 0 then
        (case read_round h usb (Suc fuel) ulimit p g umem remaining done of
           None \<Rightarrow> None
         | Some (Inl rv, p1, g1, umem1) \<Rightarrow> Some (Inl rv, p1, g1, umem1)
         | Some (Inr (remaining1, done1), p1, g1, umem1) \<Rightarrow>
             read_loop h usb fuel ulimit p1 g1 umem1 remaining1 done1)
      else Some (Inr done, p, g, umem))"

text \<open>
  \<^verbatim>\<open>usbtmc_read\<close> on an instrument session (\<open>devno \<noteq> 0\<close>): the return value, the
  session, the driver state, the user memory and the file position. \<open>count\<close> is a
  \<^verbatim>\<open>size_t\<close>; the comparisons \<^verbatim>\<open>done<count\<close> are unsigned. The branch
  \<^verbatim>\<open>minor_null\<close> for the driver's own device (\<open>devno = 0\<close>), which prints the table of
  instruments, is \<open>usbtmc_read_minor_null\<close> below.
\<close>

definition usbtmc_read_instrument ::
    "usbtmc_h \<Rightarrow> usb_bus \<Rightarrow> nat \<Rightarrow> nat \<Rightarrow> int \<Rightarrow> usbtmc_device_data \<Rightarrow> driver \<Rightarrow> mem \<Rightarrow> int \<Rightarrow>
     (int \<times> usbtmc_device_data \<times> driver \<times> mem \<times> int) option" where
  "usbtmc_read_instrument h usb fuel ulimit count p g umem f_pos =
     (if fread p \<noteq> 0 \<and> eof p \<noteq> 0 then Some (0, p\<lparr>eof := 0\<rparr>, g, umem, f_pos)
      else
        (case read_loop h usb fuel ulimit p g umem (s32 count) 0 of
           None \<Rightarrow> None
         | Some (Inl rv, p1, g1, umem1) \<Rightarrow> Some (rv, p1, g1, umem1, f_pos)
         | Some (Inr done, p1, g1, umem1) \<Rightarrow>
             if add_nl_on_read p1 = USBTMC_ATTRIB_VAL_ON h \<and> u32 done < count then
               (let g2 = g1\<lparr>usbtmc_buffer := mem_write 0 [0x0A] (usbtmc_buffer g1)\<rparr>;
                    c = copy_to_user ulimit done (mem_read 0 1 (usbtmc_buffer g2));
                    umem2 = mem_write (nat done) (snd c) umem1;
                    done1 = s32 (done + 1)
                in if \<not> fst c then Some (- EFAULT, p1, g2, umem2, f_pos)
                   else Some (done1,
                              if u32 done1 < count then p1\<lparr>eof := 1\<rparr> else p1,
                              g2, umem2, f_pos + done1))
             else Some (done,
                        if u32 done < count then p1\<lparr>eof := 1\<rparr> else p1,
                        g1, umem1, f_pos + done)))"

text \<open>
  \<^verbatim>\<open>usbtmc_buffer_append\<close> at the offset \<open>t\<close> of \<^verbatim>\<open>usbtmc_buffer\<close>: the characters
  of the string are stored, the offset moves behind them.
\<close>

definition usbtmc_buffer_append :: "u8 list \<Rightarrow> mem \<times> nat \<Rightarrow> (mem \<times> nat) option" where
  "usbtmc_buffer_append src mt =
     (case c_string src of
        None \<Rightarrow> None
      | Some cs \<Rightarrow> Some (mem_write (snd mt) cs (fst mt), snd mt + length cs))"

text \<open>The decimal digits of a number, and what \<^verbatim>\<open>sprintf(p,"%03d\t",n)\<close> stores.\<close>

fun decimal :: "nat \<Rightarrow> u8 list" where
  "decimal n = (if n < 10 then [48 + of_nat n]
                else decimal (n div 10) @ [48 + of_nat (n mod 10)])"

definition sprintf_03d_tab :: "nat \<Rightarrow> u8 list" where
  "sprintf_03d_tab n = replicate (3 - length (decimal n)) 48 @ decimal n @ [9, 0]"

text \<open>The row of the table for the minor number \<open>n\<close>, if it is in use.\<close>

definition minor_null_row :: "registry \<Rightarrow> nat \<Rightarrow> (mem \<times> nat) \<Rightarrow> (mem \<times> nat) option" where
  "minor_null_row reg n mt =
     (if usbtmc_minors reg (int n) \<noteq> 0 then
        (let d = usbtmc_devs reg (int n);
             mt1 = (mem_write (snd mt) (sprintf_03d_tab n) (fst mt), snd mt + 4)
         in Option.bind (usbtmc_buffer_append (manufacturer d) mt1) (\<lambda>mt2.
            Option.bind (usbtmc_buffer_append [9, 0] mt2) (\<lambda>mt3.
            Option.bind (usbtmc_buffer_append (product d) mt3) (\<lambda>mt4.
            Option.bind (usbtmc_buffer_append [9, 0] mt4) (\<lambda>mt5.
            Option.bind (usbtmc_buffer_append (serial d) mt5) (\<lambda>mt6.
            usbtmc_buffer_append [10, 0] mt6))))))
      else Some mt)"

fun minor_null_rows :: "registry \<Rightarrow> nat list \<Rightarrow> (mem \<times> nat) \<Rightarrow> (mem \<times> nat) option" where
  "minor_null_rows reg [] mt = Some mt"
| "minor_null_rows reg (n # ns) mt =
     (case minor_null_row reg n mt of None \<Rightarrow> None | Some mt1 \<Rightarrow> minor_null_rows reg ns mt1)"

text \<open>
  The branch \<^verbatim>\<open>minor_null\<close> of \<^verbatim>\<open>usbtmc_read\<close>: the return value, the driver state,
  the user memory and the file position; \<open>None\<close> when a device string has no end.
\<close>

definition usbtmc_read_minor_null ::
    "usbtmc_h \<Rightarrow> registry \<Rightarrow> nat \<Rightarrow> driver \<Rightarrow> mem \<Rightarrow> int \<Rightarrow> (int \<times> driver \<times> mem \<times> int) option" where
  "usbtmc_read_minor_null h reg ulimit g umem f_pos =
     (if f_pos > 0 then Some (0, g, umem, f_pos)
      else
        (case Option.bind
                (usbtmc_buffer_append
                   (map of_char ''Minor Number'' @ [9] @ map of_char ''Manufacturer'' @ [9]
                    @ map of_char ''Product'' @ [9] @ map of_char ''Serial Number''
                    @ [10, 0])
                   (usbtmc_buffer g, 0))
                (minor_null_rows reg [1 ..< nat (USBTMC_MINOR_NUMBERS h)]) of
           None \<Rightarrow> None
         | Some (m, t) \<Rightarrow>
             (let g1 = g\<lparr>usbtmc_buffer := m\<rparr>;
                  c = copy_to_user ulimit 0 (mem_read 0 t m);
                  umem1 = mem_write 0 (snd c) umem
              in if \<not> fst c then Some (- EFAULT, g1, umem1, f_pos)
                 else Some (int t, g1, umem1, f_pos + int t))))"

text \<open>\<^verbatim>\<open>usbtmc_read\<close>: both branches.\<close>

definition usbtmc_read ::
    "usbtmc_h \<Rightarrow> usb_bus \<Rightarrow> registry \<Rightarrow> nat \<Rightarrow> nat \<Rightarrow> int \<Rightarrow> usbtmc_device_data \<Rightarrow> driver \<Rightarrow>
     mem \<Rightarrow> int \<Rightarrow> (int \<times> usbtmc_device_data \<times> driver \<times> mem \<times> int) option" where
  "usbtmc_read h usb reg fuel ulimit count p g umem f_pos =
     (if devno p = 0 then
        (case usbtmc_read_minor_null h reg ulimit g umem f_pos of
           None \<Rightarrow> None
         | Some (rv, g1, umem1, f_pos1) \<Rightarrow> Some (rv, p, g1, umem1, f_pos1))
      else usbtmc_read_instrument h usb fuel ulimit count p g umem f_pos)"

section \<open>INSTRUMENT\_DATA\<close>

text \<open>
  Modelled from the spec: \<^verbatim>\<open>struct usbtmc_instrument\<close> of usbtmc.h,
  "minor\_number, out mfr[200], prod[200], serial[200]". In user memory the minor number
  is at offset 0 and the three arrays of 200 characters are at the offsets 4, 204 and
  404.
\<close>

record usbtmc_instrument =
  minor_number :: int
  instr_manufacturer :: "u8 list"
  instr_product :: "u8 list"
  instr_serial_number :: "u8 list"

text \<open>
  \<^verbatim>\<open>copy_to_user(dst, src, n)\<close> into the array \<open>dst\<close> at the offset \<open>off\<close> of the
  structure, followed by \<^verbatim>\<open>dst[n]=0\<close> when the copy succeeded. \<open>None\<close>: the copy
  reads past the array of the source string.
\<close>

definition put_string :: "nat \<Rightarrow> int \<Rightarrow> int \<Rightarrow> u8 list \<Rightarrow> u8 list \<Rightarrow> (bool \<times> u8 list) option" where
  "put_string ulimit off n src dst =
     (if int (length src) < n then None
      else
        let c = copy_to_user ulimit off (take (nat n) src);
            dst1 = snd c @ drop (length (snd c)) dst
        in Some (fst c, if fst c then dst1[nat n := 0] else dst1))"

text \<open>
  \<^verbatim>\<open>usbtmc_ioctl_instrument_data\<close>: the return value and the user's structure after the
  call. \<open>None\<close>: the minor number is no index of \<^verbatim>\<open>usbtmc_minors\<close>, or a string of the
  device is read past its array.
\<close>

definition usbtmc_ioctl_instrument_data ::
    "usbtmc_h \<Rightarrow> registry \<Rightarrow> nat \<Rightarrow> usbtmc_instrument \<Rightarrow> (int \<times> usbtmc_instrument) option" where
  "usbtmc_ioctl_instrument_data h reg ulimit arg =
     (if minor_number arg < 0 \<or> USBTMC_MINOR_NUMBERS h \<le> minor_number arg then None
      else if usbtmc_minors reg (minor_number arg) = 0 then Some (- EINVAL, arg)
      else
        let p_device = usbtmc_devs reg (minor_number arg)
        in
          case strlen (manufacturer p_device) of None \<Rightarrow> None | Some n0 \<Rightarrow>
          (let n = (if n0 > 199 then 199 else n0)
           in case put_string ulimit 4 n (manufacturer p_device) (instr_manufacturer arg) of
                None \<Rightarrow> None
              | Some (ok, m) \<Rightarrow>
          (let arg1 = arg\<lparr>instr_manufacturer := m\<rparr>
           in if \<not> ok then Some (- EFAULT, arg1)
              else
          case strlen (product p_device) of None \<Rightarrow> None | Some n0 \<Rightarrow>
          (let n = (if n0 > 199 then 199 else n0)
           in case put_string ulimit 204 n (product p_device) (instr_product arg1) of
                None \<Rightarrow> None
              | Some (ok, m) \<Rightarrow>
          (let arg2 = arg1\<lparr>instr_product := m\<rparr>
           in if \<not> ok then Some (- EFAULT, arg2)
              else
          case strlen (product p_device) of None \<Rightarrow> None | Some n0 \<Rightarrow>
          (let n = (if n0 > 199 then 199 else n0)
           in case put_string ulimit 404 n (serial p_device) (instr_serial_number arg2) of
                None \<Rightarrow> None
              | Some (ok, m) \<Rightarrow>
          (let arg3 = arg2\<lparr>instr_serial_number := m\<rparr>
           in if \<not> ok then Some (- EFAULT, arg3) else Some (0, arg3))))))))"

section \<open>The specification's side\<close>

text \<open>
  The DEV\_DEP\_MSG\_OUT packet of section 4.1 of the specification, in its words: MsgID 1,
  bTag, its bitwise complement, a reserved byte, the little-endian TransferSize,
  bmTransferAttributes (bit 0 is EOM), three reserved bytes, the payload, and zero
  bytes up to a multiple of 4.
\<close>

definition spec_dev_dep_msg_out :: "u8 \<Rightarrow> int \<Rightarrow> u8 \<Rightarrow> u8 list \<Rightarrow> u8 list" where
  "spec_dev_dep_msg_out tag transfer_size eom bytes =
     [1, tag, NOT tag, 0] @ le32 transfer_size @ [eom, 0, 0, 0] @ bytes
       @ replicate ((4 - length bytes mod 4) mod 4) 0"

text \<open>
  The writable attributes and their allowed values, in the words of section 4.7 of the
  specification; a value is a signed 32-bit integer.
\<close>

fun spec_value_allowed :: "usbtmc_h \<Rightarrow> attribute_id \<Rightarrow> int \<Rightarrow> bool" where
  "spec_value_allowed h USBTMC_ATTRIB_AUTO_ABORT_ON_ERROR v =
     (v = USBTMC_ATTRIB_VAL_ON h \<or> v = USBTMC_ATTRIB_VAL_OFF h)"
| "spec_value_allowed h USBTMC_ATTRIB_READ_MODE v =
     (v = USBTMC_ATTRIB_VAL_FREAD h \<or> v = USBTMC_ATTRIB_VAL_READ h)"
| "spec_value_allowed h USBTMC_ATTRIB_TIMEOUT v = (0 \<le> v)"
| "spec_value_allowed h USBTMC_ATTRIB_TERM_CHAR_ENABLED v =
     (v = USBTMC_ATTRIB_VAL_ON h \<or> v = USBTMC_ATTRIB_VAL_OFF h)"
| "spec_value_allowed h USBTMC_ATTRIB_TERM_CHAR v = (0 \<le> v \<and> v \<le> 255)"
| "spec_value_allowed h USBTMC_ATTRIB_ADD_NL_ON_READ v =
     (v = USBTMC_ATTRIB_VAL_ON h \<or> v = USBTMC_ATTRIB_VAL_OFF h)"
| "spec_value_allowed h USBTMC_ATTRIB_REM_NL_ON_WRITE v =
     (v = USBTMC_ATTRIB_VAL_ON h \<or> v = USBTMC_ATTRIB_VAL_OFF h)"
| "spec_value_allowed h _ v = False"

text \<open>The invariant of section 8 of the specification: the bTag of a session lies in
  [1, 255].\<close>

definition spec_bTag_in_range :: "usbtmc_device_data \<Rightarrow> bool" where
  "spec_bTag_in_range p = (1 \<le> uint (bTag p) \<and> uint (bTag p) \<le> 255)"

section \<open>A concrete configuration\<close>

text \<open>
  Values of the header constants as a kernel with \<^verbatim>\<open>HZ\<close> = 250 would see them, an
  instrument attached as minor number 1 and opened (\<^verbatim>\<open>usbtmc_open\<close> has found the bulk
  IN endpoint 0x81 and the bulk OUT endpoint 0x02), and a driver that has not yet
  submitted a transfer.
\<close>

definition example_h :: usbtmc_h where
  "example_h =
     \<lparr>HZ = 250, USBTMC_DEFAULT_TIMEOUT = 1250, USBTMC_MAX_READS_TO_CLEAR_BULK_IN = 10,
      USBTMC_MINOR_NUMBERS = 16, USBTMC_ATTRIB_VAL_OFF = 0, USBTMC_ATTRIB_VAL_ON = 1,
      USBTMC_ATTRIB_VAL_FREAD = 1, USBTMC_ATTRIB_VAL_READ = 0\<rparr>"

definition example_endpoints :: "usb_endpoint_descriptor list" where
  "example_endpoints =
     [\<lparr>bEndpointAddress = 0x81, bmAttributes = 2, wMaxPacketSize = 64\<rparr>,
      \<lparr>bEndpointAddress = 0x02, bmAttributes = 2, wMaxPacketSize = 64\<rparr>]"

definition example_session :: usbtmc_device_data where
  "example_session =
     usbtmc_probe example_h 180 1 example_endpoints
       \<lparr>devno = 0, intf = [], bulk_in = 0x81, bulk_out = 0x02, bTag = 0, eof = 0,
        timeout = 0, term_char_enabled = 0, term_char = 0, fread = 0, auto_abort = 0,
        add_nl_on_read = 0, rem_nl_on_write = 0\<rparr>"

text \<open>Kernel memory at \<^verbatim>\<open>usbtmc_buffer\<close>: the 2048 bytes of the buffer are zero, the bytes
  behind it are 0xAA.\<close>

definition example_kernel_memory :: mem where
  "example_kernel_memory = (\<lambda>i. if i < 2048 then 0 else 0xAA)"

definition example_driver :: driver where
  "example_driver =
     \<lparr>usbtmc_buffer = example_kernel_memory, usbtmc_last_write_bTag = 0,
      usbtmc_last_read_bTag = 0, urbs = []\<rparr>"

text \<open>User memory at the caller's buffer: all zero.\<close>

definition example_user_memory :: mem where
  "example_user_memory = (\<lambda>i. 0)"

text \<open>A device that accepts every transfer and sends nothing.\<close>

definition accepting :: usb_bus where
  "accepting = (\<lambda>log. \<lparr>retval = 0, payload = []\<rparr>)"

text \<open>
  A device that accepts every request and answers each bulk IN transfer with a
  DEV\_DEP\_MSG\_IN header announcing \<open>n\<close> characters, followed by the bytes \<open>bs\<close>.
\<close>

definition answering :: "int \<Rightarrow> u8 list \<Rightarrow> usb_bus" where
  "answering n bs =
     (\<lambda>log. case last log of
        BULK_IN _ _ \<Rightarrow> \<lparr>retval = 0, payload = [2, 1, 0xFE, 0] @ le32 n @ [1, 0, 0, 0] @ bs\<rparr>
      | _ \<Rightarrow> \<lparr>retval = 0, payload = []\<rparr>)"

text \<open>
  A device in the middle of an abort: INITIATE\_ABORT\_BULK\_IN succeeds, every
  CHECK\_ABORT\_BULK\_IN\_STATUS says PENDING with data to read, and every bulk IN transfer
  is empty (a short packet).
\<close>

definition aborting :: usb_bus where
  "aborting =
     (\<lambda>log. case last log of
        CONTROL request _ _ _ _ \<Rightarrow>
          if request = USBTMC_REQUEST_INITIATE_ABORT_BULK_IN
          then \<lparr>retval = 2, payload = [USBTMC_STATUS_SUCCESS, 0]\<rparr>
          else \<lparr>retval = 8, payload = [USBTMC_STATUS_PENDING, 1, 0, 0, 0, 0, 0, 0]\<rparr>
      | _ \<Rightarrow> \<lparr>retval = 0, payload = []\<rparr>)"

text \<open>A registry with one instrument, at minor number 1.\<close>

definition example_registry :: registry where
  "example_registry =
     \<lparr>usbtmc_minors = (\<lambda>n. if n = 1 then 1 else 0),
      usbtmc_devs = (\<lambda>_. \<lparr>manufacturer = map of_char ''Agilent'' @ [0],
                           product = map of_char ''AB'' @ [0],
                           serial = map of_char ''MY12345678'' @ [0]\<rparr>)\<rparr>"

definition example_instrument :: usbtmc_instrument where
  "example_instrument =
     \<lparr>minor_number = 1, instr_manufacturer = replicate 200 0x55,
      instr_product = replicate 200 0x55, instr_serial_number = replicate 200 0x55\<rparr>"

section \<open>Arithmetic of the data model\<close>

lemma s32_id: "- (2 ^ 31) \<le> x \<Longrightarrow> x < 2 ^ 31 \<Longrightarrow> s32 x = x"
  by (simp add: s32_def)

lemma c_div_nonneg: "0 \<le> a \<Longrightarrow> 0 < b \<Longrightarrow> c_div a b = a div b"
  by (cases "a = 0") (simp_all add: c_div_def)

lemma u8_255: "(255::u8) = - 1"
  by simp

lemma uint_u8_of_int: "0 \<le> v \<Longrightarrow> v \<le> 255 \<Longrightarrow> uint (word_of_int v :: u8) = v"
  by (simp add: uint_word_of_int take_bit_int_eq_self)

lemma increment_bTag_nonzero: "increment_bTag b \<noteq> 0"
  by (simp add: increment_bTag_def Let_def)

lemma increment_bTag_eq: "increment_bTag b = (if b = 255 then 1 else b + 1)"
proof -
  have "(b + 1 = 0) = (b = 255)"
    by (metis add_neg_numeral_special(8) add_right_cancel u8_255)
  then show ?thesis by (simp add: increment_bTag_def Let_def)
qed

section \<open>The attribute store: rejected requests\<close>

text \<open>
  Claim C10. SET\_ATTRIBUTE with an attribute identifier that is unknown or read-only, or
  with a value that section 4.7 does not allow for a writable attribute, returns
  \<open>-EINVAL\<close> and leaves the session as it was: every test of the value comes before
  the assignment it guards.
\<close>

theorem set_attribute_rejects:
  assumes "\<not> spec_value_allowed h (attribute arg) (val arg)"
  shows "usbtmc_ioctl_set_attribute h arg p = (- EINVAL, p)"
  using assms
  by (cases "attribute arg") (auto simp: usbtmc_ioctl_set_attribute_def)

theorem set_attribute_rejects_witness:
  "\<not> spec_value_allowed example_h USBTMC_ATTRIB_TERM_CHAR 256
   \<and> usbtmc_ioctl_set_attribute example_h
        \<lparr>attribute = USBTMC_ATTRIB_TERM_CHAR, val = 256\<rparr> example_session
      = (- EINVAL, example_session)"
  using set_attribute_rejects
          [of example_h "\<lparr>attribute = USBTMC_ATTRIB_TERM_CHAR, val = 256\<rparr>" example_session]
  by simp

section \<open>The attribute store: setting, then getting\<close>

text \<open>
  Claim C4, as stated, fails for the timeout: with \<^verbatim>\<open>HZ\<close> = 250 the driver stores
  2500 ms as 2 * 250 jiffies and reports 2000 ms.
\<close>

theorem timeout_roundtrip_counterexample:
  "usbtmc_ioctl_get_attribute example_h (usbtmc_minors example_registry)
     \<lparr>attribute = USBTMC_ATTRIB_TIMEOUT, val = 0\<rparr>
     (snd (usbtmc_ioctl_set_attribute example_h
             \<lparr>attribute = USBTMC_ATTRIB_TIMEOUT, val = 2500\<rparr> example_session))
   = (0, \<lparr>attribute = USBTMC_ATTRIB_TIMEOUT, val = 2000\<rparr>)"
  by (simp add: usbtmc_ioctl_get_attribute_def usbtmc_ioctl_set_attribute_def example_h_def
      c_div_def s32_def)

text \<open>
  Claim C4, amended. For a writable attribute \<open>k\<close> and a value \<open>v\<close> that section 4.7
  allows, SET\_ATTRIBUTE succeeds and a following GET\_ATTRIBUTE returns \<open>v\<close>, except for
  the timeout, where it returns \<open>v\<close> rounded down to whole seconds
  (\<open>v div 1000 * 1000\<close> milliseconds), whatever \<^verbatim>\<open>HZ\<close> is. The conditions: \<^verbatim>\<open>HZ\<close> is
  positive, the values ON and OFF of the header fit the \<^verbatim>\<open>u8\<close> field
  \<^verbatim>\<open>term_char_enabled\<close>, \<open>v\<close> is a 32-bit \<^verbatim>\<open>int\<close>, and the timeout in jiffies does not
  overflow one.
\<close>

theorem set_get_attribute:
  assumes hz: "0 < HZ h"
    and on: "0 \<le> USBTMC_ATTRIB_VAL_ON h" "USBTMC_ATTRIB_VAL_ON h \<le> 255"
    and off: "0 \<le> USBTMC_ATTRIB_VAL_OFF h" "USBTMC_ATTRIB_VAL_OFF h \<le> 255"
    and ok: "spec_value_allowed h k v"
    and v: "- (2 ^ 31) \<le> v" "v < 2 ^ 31" and j: "v div 1000 * HZ h < 2 ^ 31"
  shows "fst (usbtmc_ioctl_set_attribute h \<lparr>attribute = k, val = v\<rparr> p) = 0
       \<and> usbtmc_ioctl_get_attribute h minors \<lparr>attribute = k, val = x\<rparr>
           (snd (usbtmc_ioctl_set_attribute h \<lparr>attribute = k, val = v\<rparr> p))
         = (0, \<lparr>attribute = k,
                val = (if k = USBTMC_ATTRIB_TIMEOUT then v div 1000 * 1000 else v)\<rparr>)"
proof (cases k)
  case USBTMC_ATTRIB_TIMEOUT
  with ok have v0: "0 \<le> v" by simp
  have a: "c_div v 1000 = v div 1000" using v0 by (simp add: c_div_nonneg)
  have b0: "0 \<le> v div 1000" using v0 by simp
  have b: "0 \<le> v div 1000 * HZ h" using b0 hz by simp
  have c: "s32 (v div 1000 * HZ h) = v div 1000 * HZ h" using b j by (simp add: s32_id)
  have d: "c_div (v div 1000 * HZ h) (HZ h) = v div 1000"
    using b hz by (simp add: c_div_nonneg)
  have "v div 1000 * 1000 \<le> v" by simp
  then have e: "s32 (v div 1000 * 1000) = v div 1000 * 1000"
    using v b0 by (simp add: s32_id)
  show ?thesis
    using v0 by (simp add: USBTMC_ATTRIB_TIMEOUT usbtmc_ioctl_set_attribute_def
        usbtmc_ioctl_get_attribute_def a c d e)
next
  case USBTMC_ATTRIB_TERM_CHAR_ENABLED
  with ok on off have "0 \<le> v" "v \<le> 255" by auto
  then have "uint (word_of_int v :: u8) = v" by (rule uint_u8_of_int)
  then show ?thesis
    using ok by (auto simp: USBTMC_ATTRIB_TERM_CHAR_ENABLED usbtmc_ioctl_set_attribute_def
        usbtmc_ioctl_get_attribute_def)
next
  case USBTMC_ATTRIB_TERM_CHAR
  with ok have "0 \<le> v" "v \<le> 255" by auto
  then have "uint (word_of_int v :: u8) = v" by (rule uint_u8_of_int)
  then show ?thesis
    using ok by (auto simp: USBTMC_ATTRIB_TERM_CHAR usbtmc_ioctl_set_attribute_def
        usbtmc_ioctl_get_attribute_def)
qed (use ok in \<open>auto simp: usbtmc_ioctl_set_attribute_def usbtmc_ioctl_get_attribute_def\<close>)

theorem set_get_attribute_witness:
  "0 < HZ example_h
   \<and> spec_value_allowed example_h USBTMC_ATTRIB_TERM_CHAR 13
   \<and> spec_value_allowed example_h USBTMC_ATTRIB_TIMEOUT 2500
   \<and> usbtmc_ioctl_get_attribute example_h (usbtmc_minors example_registry)
        \<lparr>attribute = USBTMC_ATTRIB_TERM_CHAR, val = 0\<rparr>
        (snd (usbtmc_ioctl_set_attribute example_h
                \<lparr>attribute = USBTMC_ATTRIB_TERM_CHAR, val = 13\<rparr> example_session))
      = (0, \<lparr>attribute = USBTMC_ATTRIB_TERM_CHAR, val = 13\<rparr>)
   \<and> usbtmc_ioctl_get_attribute example_h (usbtmc_minors example_registry)
        \<lparr>attribute = USBTMC_ATTRIB_TIMEOUT, val = 0\<rparr>
        (snd (usbtmc_ioctl_set_attribute example_h
                \<lparr>attribute = USBTMC_ATTRIB_TIMEOUT, val = 2500\<rparr> example_session))
      = (0, \<lparr>attribute = USBTMC_ATTRIB_TIMEOUT, val = 2000\<rparr>)"
  using set_get_attribute
          [of example_h USBTMC_ATTRIB_TERM_CHAR 13 example_session
              "usbtmc_minors example_registry" 0]
        set_get_attribute
          [of example_h USBTMC_ATTRIB_TIMEOUT 2500 example_session
              "usbtmc_minors example_registry" 0]
  by (simp add: example_h_def)

section \<open>Memory lemmas\<close>

lemma mem_read_length [simp]: "length (mem_read off n m) = n"
  by (simp add: mem_read_def)

lemma mem_read_nth [simp]: "i < n \<Longrightarrow> mem_read off n m ! i = m (off + i)"
  by (simp add: mem_read_def)

lemma mem_write_Nil [simp]: "mem_write off [] m = m"
  by (auto simp: mem_write_def fun_eq_iff)

lemma le32_length [simp]: "length (le32 x) = 4"
  by (simp add: le32_def)

lemma mem_read_packet:
  assumes "length hdr = 12" "k \<le> length bs"
  shows "mem_read 0 (12 + k + z)
           (mem_write (12 + k) (replicate z 0) (mem_write 12 bs (mem_write 0 hdr m)))
         = hdr @ take k bs @ replicate z 0"
proof (rule nth_equalityI)
  show "length (mem_read 0 (12 + k + z)
           (mem_write (12 + k) (replicate z 0) (mem_write 12 bs (mem_write 0 hdr m))))
        = length (hdr @ take k bs @ replicate z 0)"
    using assms by simp
next
  fix i assume "i < length (mem_read 0 (12 + k + z)
           (mem_write (12 + k) (replicate z 0) (mem_write 12 bs (mem_write 0 hdr m))))"
  then have i: "i < 12 + k + z" by simp
  show "mem_read 0 (12 + k + z)
           (mem_write (12 + k) (replicate z 0) (mem_write 12 bs (mem_write 0 hdr m))) ! i
        = (hdr @ take k bs @ replicate z 0) ! i"
    using assms i by (auto simp: mem_write_def nth_append)
qed

lemma mem_read_packet0:
  assumes "length hdr = 12" "k \<le> length bs"
  shows "mem_read 0 (12 + k) (mem_write 12 bs (mem_write 0 hdr m)) = hdr @ take k bs"
  using mem_read_packet [OF assms, of 0 m] by simp

lemma driver_sel:
  "usbtmc_buffer (g\<lparr>usbtmc_buffer := x\<rparr>) = x"
  "urbs (g\<lparr>usbtmc_buffer := x\<rparr>) = urbs g"
  by simp_all

lemma write_round_sends:
  assumes acc: "0 \<le> retval (usb (urbs g @ [BULK_OUT (bulk_out p) pkt]))"
    and rem: "0 < remaining" and dn: "0 \<le> done"
    and tp: "tp = (if remaining > 2036 then 2036 else remaining)"
    and len: "done + tp \<le> int (length ubuf)"
    and tp1: "tp1 = (if tp = remaining \<and> rem_nl_on_write p = USBTMC_ATTRIB_VAL_ON h
                        \<and> ubuf ! nat (done + tp - 1) = 0x0A then tp - 1 else tp)"
    and pkt: "pkt = spec_dev_dep_msg_out (bTag p) tp (if remaining > 2036 then 0 else 1)
                      (take (nat tp1) (drop (nat done) ubuf))"
  shows "\<exists>g'. write_round h usb ubuf p g remaining done
               = (Inr (remaining - tp1, done + tp1), p\<lparr>bTag := increment_bTag (bTag p)\<rparr>, g')
             \<and> urbs g' = urbs g @ [BULK_OUT (bulk_out p) pkt]"
proof -
  define bs where "bs = take (nat tp) (drop (nat done) ubuf)"
  have lbs: "length bs = nat tp" using len dn rem tp by (auto simp: bs_def)
  have cfu: "copy_from_user ubuf done tp = (True, bs)"
    using len dn rem tp lbs by (auto simp: copy_from_user_def bs_def Let_def)
  have tp_pos: "0 < tp" "tp \<le> 2036" using rem tp by auto
  obtain T where T: "tp = int T" using tp_pos by (metis nat_0_le less_imp_le)
  obtain D where D: "done = int D" using dn by (metis nat_0_le)
  have Tpos: "0 < T" "T \<le> 2036" using tp_pos T by auto
  have last_byte: "mem_write 12 bs m' (nat (12 + tp - 1)) = ubuf ! nat (done + tp - 1)" for m'
  proof -
    have a: "nat (12 + tp - 1) = 12 + (T - 1)" "nat (done + tp - 1) = D + (T - 1)"
      using Tpos by (simp_all add: T D nat_add_distrib nat_diff_distrib)
    have "bs ! (T - 1) = ubuf ! (D + (T - 1))"
      using Tpos len by (simp add: bs_def T D)
    then show ?thesis
      unfolding a using Tpos lbs by (simp add: mem_write_def T)
  qed
  have tp1_rng: "0 \<le> tp1" "tp1 \<le> tp" using tp1 tp_pos by auto
  obtain T1 where T1: "tp1 = int T1" using tp1_rng by (metis nat_0_le)
  have T1le: "T1 \<le> T" using tp1_rng T T1 by simp
  have tk: "take T1 bs = take T1 (drop D ubuf)"
    using T1le by (simp add: bs_def min_def T D)
  have trim: "(tp = remaining \<and> rem_nl_on_write p = USBTMC_ATTRIB_VAL_ON h
                 \<and> mem_write 12 bs m' (nat (12 + tp - 1)) = 0x0A)
              = (tp = remaining \<and> rem_nl_on_write p = USBTMC_ATTRIB_VAL_ON h
                        \<and> ubuf ! nat (done + tp - 1) = 0x0A)" for m'
    by (simp only: last_byte)
  have hl: "length ([1, bTag p, NOT (bTag p), 0] @ le32 tp @ [b8, 0, 0, 0]) = 12" for b8
    by simp
  have m4: "tp1 mod 4 = int (T1 mod 4)" by (simp add: T1 zmod_int)
  have sent: "mem_read 0 (nat (if tp1 mod 4 \<noteq> 0 then 12 + tp1 + (4 - tp1 mod 4) else 12 + tp1))
      (if tp1 mod 4 \<noteq> 0 then
         mem_write (nat (12 + tp1))
          (replicate (nat ((if tp1 mod 4 \<noteq> 0 then 12 + tp1 + (4 - tp1 mod 4) else 12 + tp1)
                           - (12 + tp1))) 0)
          (mem_write 12 bs (mem_write 0 ([1, bTag p, NOT (bTag p), 0] @ le32 tp @ [b8, 0, 0, 0]) m))
       else mem_write 12 bs (mem_write 0 ([1, bTag p, NOT (bTag p), 0] @ le32 tp @ [b8, 0, 0, 0]) m))
     = spec_dev_dep_msg_out (bTag p) tp b8 (take T1 (drop D ubuf))" for b8 m
  proof -
    have e: "length (take T1 (drop D ubuf)) = T1"
      using tk T1le lbs T by (metis length_take min.absorb2 nat_int)
    have b: "nat (12 + tp1) = 12 + T1" by (simp add: T1)
    have rhs: "spec_dev_dep_msg_out (bTag p) tp b8 (take T1 (drop D ubuf))
          = ([1, bTag p, NOT (bTag p), 0] @ le32 tp @ [b8, 0, 0, 0]) @ take T1 bs
              @ replicate ((4 - T1 mod 4) mod 4) 0"
      unfolding spec_dev_dep_msg_out_def e tk by simp
    show ?thesis
    proof (cases "T1 mod 4 = 0")
      case True
      then have a: "tp1 mod 4 = 0" by (simp add: m4)
      have z: "(4 - T1 mod 4) mod 4 = 0" using True by simp
      show ?thesis
        unfolding rhs z
        using mem_read_packet0 [where k = T1 and bs = bs and m = m, OF hl [of b8]] T1le lbs
        by (simp only: a b T nat_int replicate_0 append_Nil2 if_False not_True_eq_False simp_thms)
    next
      case False
      then have a: "tp1 mod 4 \<noteq> 0" by (simp add: m4)
      have c: "nat ((12 + tp1 + (4 - tp1 mod 4)) - (12 + tp1)) = 4 - T1 mod 4"
        unfolding m4 by (simp add: T1)
      have d: "nat (12 + tp1 + (4 - tp1 mod 4)) = 12 + T1 + (4 - T1 mod 4)"
        unfolding m4 by (simp add: T1 nat_add_distrib nat_diff_distrib)
      have f: "(4 - T1 mod 4) mod 4 = 4 - T1 mod 4" using False by simp
      show ?thesis
        unfolding rhs f
        using mem_read_packet [where k = T1 and bs = bs and m = m and z = "4 - T1 mod 4",
                OF hl [of b8]] T1le lbs
        by (simp only: a b c d T nat_int if_True simp_thms not_False_eq_True)
    qed
  qed
  have tp_eq: "(if remaining > USBTMC_SIZE_IOBUFFER - 12 then USBTMC_SIZE_IOBUFFER - 12
               else remaining) = tp"
    using tp by (simp add: USBTMC_SIZE_IOBUFFER_def)
  have gt: "(remaining > USBTMC_SIZE_IOBUFFER - 12) = (remaining > 2036)"
    by (simp add: USBTMC_SIZE_IOBUFFER_def)
  have acc': "\<not> retval (usb (urbs g @ [BULK_OUT (bulk_out p) pkt])) < 0" using acc by simp
  have pkt': "spec_dev_dep_msg_out (bTag p) tp (if 2036 < remaining then 0 else 1)
               (take T1 (drop D ubuf)) = pkt"
    using pkt by (simp add: T1 D)
  show ?thesis
    unfolding write_round_def Let_def tp_eq cfu fst_conv snd_conv
    by (simp only: driver_sel trim sent usb_bulk_msg_snd_def Let_def fst_conv snd_conv gt
          tp1 [symmetric] if_distrib [of usbtmc_buffer] if_distrib [of urbs] if_cancel
          simp_thms if_False pkt')
       (use acc' in \<open>simp add: T1\<close>)
qed

section \<open>Writing: what one turn of the loop sends\<close>

lemma write_loop_done:
  "remaining \<le> 0 \<Longrightarrow> write_loop h usb ubuf count fuel p g remaining done = Some (s32 count, p, g)"
  by (cases fuel) simp_all


lemma write_round_stuck:
  assumes acc: "\<forall>log. 0 \<le> retval (usb log)"
    and nl: "rem_nl_on_write p = USBTMC_ATTRIB_VAL_ON h"
    and dn: "0 \<le> done" "done + 1 \<le> int (length ubuf)" and last: "ubuf ! nat done = 0x0A"
  shows "\<exists>g'. write_round h usb ubuf p g 1 done
               = (Inr (1, done), p\<lparr>bTag := increment_bTag (bTag p)\<rparr>, g')"
  using write_round_sends [where h = h and usb = usb and ubuf = ubuf and p = p and g = g
      and remaining = 1 and ?done = "done" and tp = 1 and ?tp1.0 = 0] acc nl dn last
  by auto

lemma write_loop_stuck:
  assumes acc: "\<forall>log. 0 \<le> retval (usb log)"
    and nl: "rem_nl_on_write p = USBTMC_ATTRIB_VAL_ON h"
    and dn: "0 \<le> done" "done + 1 \<le> int (length ubuf)" and last: "ubuf ! nat done = 0x0A"
  shows "write_loop h usb ubuf count fuel p g 1 done = None"
  using nl
proof (induction fuel arbitrary: p g)
  case 0
  show ?case by simp
next
  case (Suc fuel)
  obtain g' where "write_round h usb ubuf p g 1 done
               = (Inr (1, done), p\<lparr>bTag := increment_bTag (bTag p)\<rparr>, g')"
    using write_round_stuck [OF acc Suc.prems dn last] by blast
  then show ?case using Suc.IH [of "p\<lparr>bTag := increment_bTag (bTag p)\<rparr>" g'] Suc.prems
    by simp
qed



lemma write_round_full:
  assumes acc: "\<forall>log. 0 \<le> retval (usb log)"
    and rem: "2036 < remaining" and dn: "0 \<le> done"
    and len: "done + 2036 \<le> int (length ubuf)"
  shows "\<exists>g'. write_round h usb ubuf p g remaining done
               = (Inr (remaining - 2036, done + 2036),
                  p\<lparr>bTag := increment_bTag (bTag p)\<rparr>, g')
             \<and> urbs g' = urbs g @ [BULK_OUT (bulk_out p)
                   (spec_dev_dep_msg_out (bTag p) 2036 0 (take 2036 (drop (nat done) ubuf)))]"
proof (rule write_round_sends [where tp = 2036])
  show "0 \<le> retval (usb (urbs g @ [BULK_OUT (bulk_out p)
          (spec_dev_dep_msg_out (bTag p) 2036 0 (take 2036 (drop (nat done) ubuf)))]))"
    using acc by blast
  show "(2036::int) = (if 2036 = remaining \<and> rem_nl_on_write p = USBTMC_ATTRIB_VAL_ON h
           \<and> ubuf ! nat (done + 2036 - 1) = 0x0A then 2036 - 1 else 2036)"
    using rem by simp
qed (use rem dn len in simp_all)

lemma write_round_last:
  assumes acc: "\<forall>log. 0 \<le> retval (usb log)"
    and rem: "0 < remaining" "remaining \<le> 2036" and dn: "0 \<le> done"
    and len: "done + remaining \<le> int (length ubuf)"
    and nl: "rem_nl_on_write p \<noteq> USBTMC_ATTRIB_VAL_ON h"
  shows "\<exists>g'. write_round h usb ubuf p g remaining done
               = (Inr (remaining - remaining, done + remaining),
                  p\<lparr>bTag := increment_bTag (bTag p)\<rparr>, g')
             \<and> urbs g' = urbs g @ [BULK_OUT (bulk_out p)
                   (spec_dev_dep_msg_out (bTag p) remaining 1
                      (take (nat remaining) (drop (nat done) ubuf)))]"
proof (rule write_round_sends [where tp = remaining])
  show "0 \<le> retval (usb (urbs g @ [BULK_OUT (bulk_out p)
          (spec_dev_dep_msg_out (bTag p) remaining 1
             (take (nat remaining) (drop (nat done) ubuf)))]))"
    using acc by blast
  show "remaining = (if remaining = remaining \<and> rem_nl_on_write p = USBTMC_ATTRIB_VAL_ON h
           \<and> ubuf ! nat (done + remaining - 1) = 0x0A then remaining - 1 else remaining)"
    using nl by simp
qed (use rem dn len in simp_all)

lemma write_loop_4096:
  assumes acc: "\<forall>log. 0 \<le> retval (usb log)"
    and len: "length ubuf = 4096"
    and dev: "devno p \<noteq> 0" and tag: "bTag p = 1"
    and nl: "rem_nl_on_write p \<noteq> USBTMC_ATTRIB_VAL_ON h"
  shows "\<exists>p' g'. usbtmc_write h usb (Suc (Suc (Suc fuel))) ubuf 4096 p g = Some (4096, p', g')
         \<and> bTag p' = 4
         \<and> urbs g' = urbs g @
             [BULK_OUT (bulk_out p)
                ([1, 1, 0xFE, 0, 0xF4, 0x07, 0, 0, 0, 0, 0, 0] @ take 2036 ubuf),
              BULK_OUT (bulk_out p)
                ([1, 2, 0xFD, 0, 0xF4, 0x07, 0, 0, 0, 0, 0, 0] @ take 2036 (drop 2036 ubuf)),
              BULK_OUT (bulk_out p)
                ([1, 3, 0xFC, 0, 0x18, 0, 0, 0, 1, 0, 0, 0] @ drop 4072 ubuf)]"
proof -
  let ?p0 = "p\<lparr>eof := 0\<rparr>"
  let ?p1 = "?p0\<lparr>bTag := increment_bTag (bTag ?p0)\<rparr>"
  let ?p2 = "?p1\<lparr>bTag := increment_bTag (bTag ?p1)\<rparr>"
  let ?p3 = "?p2\<lparr>bTag := increment_bTag (bTag ?p2)\<rparr>"
  have tags: "bTag ?p0 = 1" "bTag ?p1 = 2" "bTag ?p2 = 3" "bTag ?p3 = 4"
    using tag by (simp_all add: increment_bTag_def)
  have k1: "spec_dev_dep_msg_out 1 2036 0 (take 2036 (drop (nat 0) ubuf))
            = [1, 1, 0xFE, 0, 0xF4, 0x07, 0, 0, 0, 0, 0, 0] @ take 2036 ubuf"
    using len by (simp add: spec_dev_dep_msg_out_def le32_def)
  have k2: "spec_dev_dep_msg_out 2 2036 0 (take 2036 (drop (nat 2036) ubuf))
            = [1, 2, 0xFD, 0, 0xF4, 0x07, 0, 0, 0, 0, 0, 0] @ take 2036 (drop 2036 ubuf)"
    using len by (simp add: spec_dev_dep_msg_out_def le32_def)
  have k3: "spec_dev_dep_msg_out 3 24 1 (take (nat 24) (drop (nat 4072) ubuf))
            = [1, 3, 0xFC, 0, 0x18, 0, 0, 0, 1, 0, 0, 0] @ drop 4072 ubuf"
    using len by (simp add: spec_dev_dep_msg_out_def le32_def)
  obtain g1 where r1: "write_round h usb ubuf ?p0 g 4096 0 = (Inr (2060, 2036), ?p1, g1)"
      and u1: "urbs g1 = urbs g @ [BULK_OUT (bulk_out p)
                  ([1, 1, 0xFE, 0, 0xF4, 0x07, 0, 0, 0, 0, 0, 0] @ take 2036 ubuf)]"
    using write_round_full [OF acc, of 4096 0 ubuf h ?p0 g] len tags k1 by auto
  obtain g2 where r2: "write_round h usb ubuf ?p1 g1 2060 2036 = (Inr (24, 4072), ?p2, g2)"
      and u2: "urbs g2 = urbs g1 @ [BULK_OUT (bulk_out p)
                  ([1, 2, 0xFD, 0, 0xF4, 0x07, 0, 0, 0, 0, 0, 0]
                   @ take 2036 (drop 2036 ubuf))]"
    using write_round_full [OF acc, of 2060 2036 ubuf h ?p1 g1] len tags k2 by auto
  have nl2: "rem_nl_on_write ?p2 \<noteq> USBTMC_ATTRIB_VAL_ON h" using nl by simp
  obtain g3 where r3: "write_round h usb ubuf ?p2 g2 24 4072 = (Inr (0, 4096), ?p3, g3)"
      and u3: "urbs g3 = urbs g2 @ [BULK_OUT (bulk_out p)
                  ([1, 3, 0xFC, 0, 0x18, 0, 0, 0, 1, 0, 0, 0] @ drop 4072 ubuf)]"
    using write_round_last [OF acc _ _ _ _ nl2, of 24 4072 ubuf g2] len tags k3 by auto
  have "write_loop h usb ubuf 4096 (Suc (Suc (Suc fuel))) ?p0 g 4096 0
        = Some (s32 4096, ?p3, g3)"
    using r1 r2 r3 by (simp add: write_loop_done)
  then have "usbtmc_write h usb (Suc (Suc (Suc fuel))) ubuf 4096 p g = Some (4096, ?p3, g3)"
    using dev by (simp add: usbtmc_write_def s32_def)
  then show ?thesis using tags u1 u2 u3 by auto
qed


section \<open>Writing zero bytes\<close>

text \<open>
  Claim C3, as stated, fails: a write of zero bytes does not enter the loop
  \<^verbatim>\<open>while(remaining>0)\<close>, so no packet is emitted; the driver state, with its list of
  transfers, is unchanged and the call returns 0.
\<close>

theorem write_zero_bytes_counterexample:
  "usbtmc_write example_h accepting 1 [] 0 example_session example_driver
     = Some (0, example_session, example_driver)
   \<and> urbs example_driver = []"
  by (simp add: usbtmc_write_def write_loop_done s32_def example_session_def usbtmc_probe_def
      example_driver_def)


text \<open>
  Claim C3, amended. On an instrument session a write of zero bytes emits no bulk packet:
  it returns 0, clears the end-of-file flag and changes nothing else, neither the bTag
  nor the driver state with the transfers submitted so far.
\<close>

theorem write_zero_bytes:
  assumes "devno p \<noteq> 0"
  shows "usbtmc_write h usb fuel ubuf 0 p g = Some (0, p\<lparr>eof := 0\<rparr>, g)"
  using assms by (simp add: usbtmc_write_def write_loop_done s32_def)

theorem write_zero_bytes_witness:
  "devno example_session \<noteq> 0
   \<and> usbtmc_write example_h accepting 0 [] 0 example_session example_driver
       = Some (0, example_session\<lparr>eof := 0\<rparr>, example_driver)"
  using write_zero_bytes [of example_session example_h accepting 0 "[]" example_driver]
  by (simp add: example_session_def usbtmc_probe_def)


section \<open>Writing with the trailing newline removed\<close>

text \<open>
  Claim C1 fails on the code by a slip. With \<^verbatim>\<open>rem_nl_on_write\<close> on, the first turn of
  the loop for the four bytes 0x41 0x42 0x43 0x0A has written the TransferSize 4 into the
  header before it shortens \<^verbatim>\<open>this_part\<close> to 3, and it then subtracts the shortened length, so that
  \<open>remaining\<close> is 1 and \<open>done\<close> is 3 after it. Every further turn sends the header of
  a one-byte chunk without payload and leaves \<open>remaining\<close> at 1: against a device that
  accepts every transfer the call never returns, whatever the fuel.
\<close>

theorem write_rem_nl_on_write_hangs:
  "usbtmc_write example_h accepting fuel [0x41, 0x42, 0x43, 0x0A] 4
      (example_session\<lparr>rem_nl_on_write := 1\<rparr>) example_driver = None
   \<and> fst (write_round example_h accepting [0x41, 0x42, 0x43, 0x0A]
             (example_session\<lparr>rem_nl_on_write := 1\<rparr>) example_driver 4 0) = Inr (1, 3)
   \<and> urbs (snd (snd (write_round example_h accepting [0x41, 0x42, 0x43, 0x0A]
                        (example_session\<lparr>rem_nl_on_write := 1\<rparr>) example_driver 4 0)))
       = [BULK_OUT 2 [1, 1, 0xFE, 0, 4, 0, 0, 0, 1, 0, 0, 0, 0x41, 0x42, 0x43, 0]]"
proof -
  let ?p = "example_session\<lparr>rem_nl_on_write := 1\<rparr>"
  let ?ubuf = "[0x41, 0x42, 0x43, 0x0A] :: u8 list"
  have acc: "\<forall>log. 0 \<le> retval (accepting log)" by (simp add: accepting_def)
  have on: "rem_nl_on_write ?p = USBTMC_ATTRIB_VAL_ON example_h"
    by (simp add: example_h_def)
  have p: "bTag ?p = 1" "bulk_out ?p = 2" "devno ?p \<noteq> 0" "?p\<lparr>eof := 0\<rparr> = ?p"
    by (simp_all add: example_session_def usbtmc_probe_def)
  have pkt: "spec_dev_dep_msg_out 1 4 1 [0x41, 0x42, 0x43]
             = [1, 1, 0xFE, 0, 4, 0, 0, 0, 1, 0, 0, 0, 0x41, 0x42, 0x43, 0]"
    by (simp add: spec_dev_dep_msg_out_def le32_def)
  have "\<exists>g'. write_round example_h accepting ?ubuf ?p example_driver 4 0
               = (Inr (4 - 3, 0 + 3), ?p\<lparr>bTag := increment_bTag (bTag ?p)\<rparr>, g')
             \<and> urbs g' = urbs example_driver @ [BULK_OUT (bulk_out ?p)
                   [1, 1, 0xFE, 0, 4, 0, 0, 0, 1, 0, 0, 0, 0x41, 0x42, 0x43, 0]]"
  proof (rule write_round_sends [where tp = 4])
    show "0 \<le> retval (accepting (urbs example_driver @ [BULK_OUT (bulk_out ?p)
                   [1, 1, 0xFE, 0, 4, 0, 0, 0, 1, 0, 0, 0, 0x41, 0x42, 0x43, 0]]))"
      using acc by blast
    show "(3::int) = (if (4::int) = 4 \<and> rem_nl_on_write ?p = USBTMC_ATTRIB_VAL_ON example_h
                   \<and> ?ubuf ! nat (0 + 4 - 1) = 0x0A then 4 - 1 else 4)"
      using on by simp
    show "[1, 1, 0xFE, 0, 4, 0, 0, 0, 1, 0, 0, 0, 0x41, 0x42, 0x43, 0]
          = spec_dev_dep_msg_out (bTag ?p) 4 (if (4::int) > 2036 then 0 else 1)
              (take (nat 3) (drop (nat 0) ?ubuf))"
      using pkt p by simp
  qed simp_all
  then obtain g' where r1: "write_round example_h accepting ?ubuf ?p example_driver 4 0
        = (Inr (1, 3), ?p\<lparr>bTag := increment_bTag (bTag ?p)\<rparr>, g')"
      and u1: "urbs g' = urbs example_driver @ [BULK_OUT (bulk_out ?p)
                 [1, 1, 0xFE, 0, 4, 0, 0, 0, 1, 0, 0, 0, 0x41, 0x42, 0x43, 0]]"
    by auto
  have stuck: "write_loop example_h accepting ?ubuf 4 k
                 (?p\<lparr>bTag := increment_bTag (bTag ?p)\<rparr>) g' 1 3 = None" for k
    by (rule write_loop_stuck [OF acc]) (simp_all add: example_h_def)
  have "write_loop example_h accepting ?ubuf 4 fuel ?p example_driver 4 0 = None"
  proof (cases fuel)
    case 0
    then show ?thesis by simp
  next
    case (Suc k)
    then show ?thesis using r1 stuck [of k] by simp
  qed
  then have "usbtmc_write example_h accepting fuel ?ubuf 4 ?p example_driver = None"
    using p by (simp add: usbtmc_write_def s32_def)
  then show ?thesis using r1 u1 p by (simp add: example_driver_def)
qed



section \<open>Writing 4096 bytes\<close>

text \<open>
  Claim C8, as stated, fails: the chunks hold at most 2048 - 12 = 2036 bytes, so 4096
  bytes leave in three packets, of 2036, 2036 and 24 bytes.
\<close>

theorem write_4096_bytes_counterexample:
  "urbs (snd (snd (the (usbtmc_write example_h accepting 3 (replicate 4096 0x41) 4096
                          example_session example_driver))))
   = [BULK_OUT 2 ([1, 1, 0xFE, 0, 0xF4, 0x07, 0, 0, 0, 0, 0, 0] @ replicate 2036 0x41),
      BULK_OUT 2 ([1, 2, 0xFD, 0, 0xF4, 0x07, 0, 0, 0, 0, 0, 0] @ replicate 2036 0x41),
      BULK_OUT 2 ([1, 3, 0xFC, 0, 0x18, 0, 0, 0, 1, 0, 0, 0] @ replicate 24 0x41)]"
proof -
  have "\<forall>log. 0 \<le> retval (accepting log)" by (simp add: accepting_def)
  moreover have "devno example_session \<noteq> 0" "bTag example_session = 1"
      "rem_nl_on_write example_session \<noteq> USBTMC_ATTRIB_VAL_ON example_h"
      "bulk_out example_session = 2"
    by (simp_all add: example_session_def usbtmc_probe_def example_h_def)
  moreover have "urbs example_driver = []" by (simp add: example_driver_def)
  ultimately show ?thesis
    using write_loop_4096 [of accepting "replicate 4096 0x41" example_session example_h 0
        example_driver]
    by (auto simp: numeral_3_eq_3)
qed

text \<open>
  Claim C8, amended. On a session with bTag 1 and \<^verbatim>\<open>rem_nl_on_write\<close> off (as after
  \<^verbatim>\<open>usbtmc_probe\<close>), against a device that accepts every transfer, a write of 4096 bytes
  returns 4096 and emits exactly three OUT packets: bTags 1, 2 and 3, TransferSize 2036
  (0x07F4), 2036 and 24, EOM clear on the first two and set on the third, each header
  followed by its part of the payload. The packets are 2048, 2048 and 36 bytes long,
  multiples of 4, so that none is padded. The session's bTag is 4 afterwards.
\<close>

theorem write_4096_bytes:
  assumes "\<forall>log. 0 \<le> retval (usb log)"
    and "length ubuf = 4096"
    and "devno p \<noteq> 0" and "bTag p = 1"
    and "rem_nl_on_write p \<noteq> USBTMC_ATTRIB_VAL_ON h"
  shows "\<exists>p' g'. usbtmc_write h usb (Suc (Suc (Suc fuel))) ubuf 4096 p g = Some (4096, p', g')
         \<and> bTag p' = 4
         \<and> urbs g' = urbs g @
             [BULK_OUT (bulk_out p)
                ([1, 1, 0xFE, 0, 0xF4, 0x07, 0, 0, 0, 0, 0, 0] @ take 2036 ubuf),
              BULK_OUT (bulk_out p)
                ([1, 2, 0xFD, 0, 0xF4, 0x07, 0, 0, 0, 0, 0, 0] @ take 2036 (drop 2036 ubuf)),
              BULK_OUT (bulk_out p)
                ([1, 3, 0xFC, 0, 0x18, 0, 0, 0, 1, 0, 0, 0] @ drop 4072 ubuf)]"
  using assms by (rule write_loop_4096)

theorem write_4096_bytes_witness:
  "(\<forall>log. 0 \<le> retval (accepting log))
   \<and> length (replicate 4096 (0x41 :: u8)) = 4096
   \<and> devno example_session \<noteq> 0 \<and> bTag example_session = 1
   \<and> rem_nl_on_write example_session \<noteq> USBTMC_ATTRIB_VAL_ON example_h
   \<and> (\<exists>p' g'. usbtmc_write example_h accepting (Suc (Suc (Suc 0))) (replicate 4096 0x41) 4096
                  example_session example_driver = Some (4096, p', g')
         \<and> bTag p' = 4
         \<and> urbs g' = urbs example_driver @
             [BULK_OUT (bulk_out example_session)
                ([1, 1, 0xFE, 0, 0xF4, 0x07, 0, 0, 0, 0, 0, 0]
                 @ take 2036 (replicate 4096 0x41)),
              BULK_OUT (bulk_out example_session)
                ([1, 2, 0xFD, 0, 0xF4, 0x07, 0, 0, 0, 0, 0, 0]
                 @ take 2036 (drop 2036 (replicate 4096 0x41))),
              BULK_OUT (bulk_out example_session)
                ([1, 3, 0xFC, 0, 0x18, 0, 0, 0, 1, 0, 0, 0]
                 @ drop 4072 (replicate 4096 0x41))])"
proof -
  have a: "\<forall>log. 0 \<le> retval (accepting log)" by (simp add: accepting_def)
  have b: "length (replicate 4096 (0x41 :: u8)) = 4096" by simp
  have c: "devno example_session \<noteq> 0" "bTag example_session = 1"
      "rem_nl_on_write example_session \<noteq> USBTMC_ATTRIB_VAL_ON example_h"
    by (simp_all add: example_session_def usbtmc_probe_def example_h_def)
  show ?thesis
    using a b c write_4096_bytes [OF a b c, of 0 example_driver] by blast
qed

section \<open>Reading: what one turn of the loop does\<close>

lemma mem_read_write_same: "length bs = n \<Longrightarrow> mem_read off n (mem_write off bs m) = bs"
  by (rule nth_equalityI) (simp_all add: mem_write_def)

lemma le32_decode_nonneg: "0 \<le> le32_decode b"
  by (simp add: le32_decode_def u32_def)

lemma read_round_received:
  assumes req: "req = [2, bTag p, NOT (bTag p), 0]
                   @ le32 ((if remaining > 2033 then 2033 else remaining) - 12 - 3)
                   @ [term_char_enabled p * 2, term_char p, 0, 0]"
    and log: "log = urbs g @ [BULK_OUT (bulk_out p) req, BULK_IN (bulk_in p) 2048]"
    and a1: "0 \<le> retval (usb (urbs g @ [BULK_OUT (bulk_out p) req]))"
    and a2: "0 \<le> retval (usb log)"
    and buf: "buf = mem_write 0 (take 2048 (payload (usb log))) (mem_write 0 req (usbtmc_buffer g))"
    and n: "n = le32_decode (mem_read 4 4 buf)"
    and fit: "0 \<le> done" "done + n \<le> int ulimit"
  shows "read_round h usb fuel ulimit p g umem remaining done
         = Some (Inr (if n < 2048 then 0 else remaining, s32 (done + n)),
                 p\<lparr>bTag := increment_bTag (bTag p)\<rparr>,
                 g\<lparr>usbtmc_buffer := buf, usbtmc_last_write_bTag := bTag p,
                   usbtmc_last_read_bTag := increment_bTag (bTag p), urbs := log\<rparr>,
                 mem_write (nat done) (mem_read 12 (nat n) buf) umem)"
proof (cases "2033 < remaining")
  case True
  show ?thesis
    using a1 a2 fit True unfolding n buf log req
    by (simp add: read_round_def Let_def usb_bulk_msg_snd_def usb_bulk_msg_rcv_def
        USBTMC_SIZE_IOBUFFER_def mem_read_write_same le32_decode_nonneg copy_to_user_def)
next
  case False
  show ?thesis
    using a1 a2 fit False unfolding n buf log req
    by (simp add: read_round_def Let_def usb_bulk_msg_snd_def usb_bulk_msg_rcv_def
        USBTMC_SIZE_IOBUFFER_def mem_read_write_same le32_decode_nonneg copy_to_user_def)
qed

lemma read_loop_done:
  "remaining \<le> 0 \<Longrightarrow>
   read_loop h usb fuel ulimit p g umem remaining done = Some (Inr done, p, g, umem)"
  by (cases fuel) simp_all

lemma read_loop_step:
  assumes req: "req = [2, bTag p, NOT (bTag p), 0]
                   @ le32 ((if remaining > 2033 then 2033 else remaining) - 12 - 3)
                   @ [term_char_enabled p * 2, term_char p, 0, 0]"
    and log: "log = urbs g @ [BULK_OUT (bulk_out p) req, BULK_IN (bulk_in p) 2048]"
    and a1: "0 \<le> retval (usb (urbs g @ [BULK_OUT (bulk_out p) req]))"
    and a2: "0 \<le> retval (usb log)"
    and buf: "buf = mem_write 0 (take 2048 (payload (usb log))) (mem_write 0 req (usbtmc_buffer g))"
    and n: "n = le32_decode (mem_read 4 4 buf)"
    and fit: "0 \<le> done" "done + n \<le> int ulimit"
    and rem: "0 < remaining"
    and p': "p' = p\<lparr>bTag := increment_bTag (bTag p)\<rparr>"
    and g': "g' = g\<lparr>usbtmc_buffer := buf, usbtmc_last_write_bTag := bTag p,
                      usbtmc_last_read_bTag := increment_bTag (bTag p), urbs := log\<rparr>"
    and umem': "umem' = mem_write (nat done) (mem_read 12 (nat n) buf) umem"
  shows "read_loop h usb (Suc fuel) ulimit p g umem remaining done
         = (if n < USBTMC_SIZE_IOBUFFER then Some (Inr (s32 (done + n)), p', g', umem')
            else read_loop h usb fuel ulimit p' g' umem' remaining (s32 (done + n)))"
  using read_round_received [OF req log a1 a2 buf n fit, of h "Suc fuel" umem] rem
  by (simp add: p' g' umem' read_loop_done USBTMC_SIZE_IOBUFFER_def)

lemma read_instrument_short:
  assumes idle: "fread p = 0 \<or> eof p = 0"
    and cnt: "0 < count" "count < 2 ^ 31"
    and req: "req = [2, bTag p, NOT (bTag p), 0]
                   @ le32 ((if count > 2033 then 2033 else count) - 12 - 3)
                   @ [term_char_enabled p * 2, term_char p, 0, 0]"
    and log: "log = urbs g @ [BULK_OUT (bulk_out p) req, BULK_IN (bulk_in p) 2048]"
    and a1: "0 \<le> retval (usb (urbs g @ [BULK_OUT (bulk_out p) req]))"
    and a2: "0 \<le> retval (usb log)"
    and buf: "buf = mem_write 0 (take 2048 (payload (usb log))) (mem_write 0 req (usbtmc_buffer g))"
    and n: "n = le32_decode (mem_read 4 4 buf)"
    and short: "n < 2048" and fit: "n \<le> int ulimit"
    and nl: "add_nl_on_read p \<noteq> USBTMC_ATTRIB_VAL_ON h"
  shows "usbtmc_read_instrument h usb (Suc fuel) ulimit count p g umem f_pos
         = Some (n,
                 p\<lparr>bTag := increment_bTag (bTag p), eof := (if n < count then 1 else eof p)\<rparr>,
                 g\<lparr>usbtmc_buffer := buf, usbtmc_last_write_bTag := bTag p,
                   usbtmc_last_read_bTag := increment_bTag (bTag p), urbs := log\<rparr>,
                 mem_write 0 (mem_read 12 (nat n) buf) umem,
                 f_pos + n)"
proof -
  have n0: "0 \<le> n" by (simp add: n le32_decode_nonneg)
  have sc: "s32 count = count" using cnt by (simp add: s32_id)
  have sn: "s32 (0 + n) = n" "u32 n = n" using n0 short by (simp_all add: s32_def u32_def)
  have "read_loop h usb (Suc fuel) ulimit p g umem count 0
        = Some (Inr n, p\<lparr>bTag := increment_bTag (bTag p)\<rparr>,
                g\<lparr>usbtmc_buffer := buf, usbtmc_last_write_bTag := bTag p,
                   usbtmc_last_read_bTag := increment_bTag (bTag p), urbs := log\<rparr>,
                mem_write 0 (mem_read 12 (nat n) buf) umem)"
    using read_loop_step [OF req log a1 a2 buf n _ _ cnt(1) refl refl refl, of 0 ulimit h fuel umem]
      fit short sn by (simp add: USBTMC_SIZE_IOBUFFER_def)
  then show ?thesis
    using idle nl sn by (auto simp: usbtmc_read_instrument_def sc)
qed


lemma example_session_fields:
  "devno example_session \<noteq> 0" "bTag example_session = 1" "bulk_out example_session = 2"
  "bulk_in example_session = 0x81" "term_char_enabled example_session = 0"
  "term_char example_session = 0x0A" "fread example_session = 1"
  "eof example_session = 0" "add_nl_on_read example_session = 0"
  "rem_nl_on_write example_session = 0" "auto_abort example_session = 0"
  by (simp_all add: example_session_def usbtmc_probe_def)

lemma read_answering:
  assumes cnt: "0 < count" "count < 2 ^ 31"
    and n: "le32_decode (le32 n) = n" "n < 2048" "n \<le> int ulimit"
    and req: "req = [2, 1, 0xFE, 0] @ le32 ((if count > 2033 then 2033 else count) - 12 - 3)
                    @ [0, 0x0A, 0, 0]"
    and buf: "buf = mem_write 0 (take 2048 ([2, 1, 0xFE, 0] @ le32 n @ [1, 0, 0, 0] @ bs))
                      (mem_write 0 req example_kernel_memory)"
  shows "usbtmc_read example_h (answering n bs) reg (Suc fuel) ulimit count example_session
           example_driver umem f_pos
         = Some (n,
                 example_session\<lparr>bTag := 2, eof := (if n < count then 1 else 0)\<rparr>,
                 example_driver\<lparr>usbtmc_buffer := buf, usbtmc_last_write_bTag := 1,
                   usbtmc_last_read_bTag := 2,
                   urbs := [BULK_OUT 2 req, BULK_IN 0x81 2048]\<rparr>,
                 mem_write 0 (mem_read 12 (nat n) buf) umem,
                 f_pos + n)"
proof -
  let ?log = "[BULK_OUT 2 req, BULK_IN 0x81 2048]"
  have pl: "payload (answering n bs ?log) = [2, 1, 0xFE, 0] @ le32 n @ [1, 0, 0, 0] @ bs"
    by (simp add: answering_def)
  have dec: "mem_read 4 4 buf = le32 n"
  proof (rule nth_equalityI)
    show "length (mem_read 4 4 buf) = length (le32 n)" by simp
  next
    fix i assume "i < length (mem_read 4 4 buf)"
    then have i: "i < 4" by simp
    let ?L = "[2, 1, 0xFE, 0] @ le32 n @ [1, 0, 0, 0] @ bs"
    have l: "4 + i < length (take 2048 ?L)" using i by simp
    have "buf (4 + i) = take 2048 ?L ! (4 + i)"
      using l by (simp add: buf mem_write_def)
    also have "\<dots> = ?L ! (4 + i)" using i by (simp only: nth_take)
    also have "\<dots> = le32 n ! i" using i by (simp add: nth_append)
    finally show "mem_read 4 4 buf ! i = le32 n ! i" using i by simp
  qed
  have "usbtmc_read_instrument example_h (answering n bs) (Suc fuel) ulimit count
           example_session example_driver umem f_pos
        = Some (n,
                example_session\<lparr>bTag := increment_bTag (bTag example_session),
                   eof := (if n < count then 1 else eof example_session)\<rparr>,
                example_driver\<lparr>usbtmc_buffer := buf,
                   usbtmc_last_write_bTag := bTag example_session,
                   usbtmc_last_read_bTag := increment_bTag (bTag example_session),
                   urbs := ?log\<rparr>,
                mem_write 0 (mem_read 12 (nat n) buf) umem,
                f_pos + n)"
  proof (rule read_instrument_short [where req = req and log = ?log and buf = buf])
    show "req = [2, bTag example_session, NOT (bTag example_session), 0]
                   @ le32 ((if count > 2033 then 2033 else count) - 12 - 3)
                   @ [term_char_enabled example_session * 2, term_char example_session, 0, 0]"
      by (simp add: example_session_fields req)
    show "?log = urbs example_driver @ [BULK_OUT (bulk_out example_session) req,
                   BULK_IN (bulk_in example_session) 2048]"
      by (simp add: example_session_fields example_driver_def)
    show "buf = mem_write 0 (take 2048 (payload (answering n bs ?log)))
                   (mem_write 0 req (usbtmc_buffer example_driver))"
      by (simp only: pl buf) (simp add: example_driver_def)
    show "n = le32_decode (mem_read 4 4 buf)" by (simp add: dec n)
    show "add_nl_on_read example_session \<noteq> USBTMC_ATTRIB_VAL_ON example_h"
      by (simp add: example_session_fields example_h_def)
  qed (use cnt n in \<open>simp_all add: answering_def example_session_fields split: urb.split\<close>)
  then show ?thesis
    by (simp add: usbtmc_read_def example_session_fields increment_bTag_def)
qed


lemma read_round_Inr:
  assumes "read_round h usb fuel' ulimit p g umem remaining done
           = Some (Inr (remaining', done'), p', g', umem')"
  shows "remaining' = (if le32_decode (mem_read 4 4 (usbtmc_buffer g')) < USBTMC_SIZE_IOBUFFER
                       then 0 else remaining)"
  using assms
  by (auto simp: read_round_def Let_def split: if_splits option.splits prod.splits)


lemma answering_accepts: "0 \<le> retval (answering n bs log)"
  by (simp add: answering_def split: urb.split)

lemma read_round_answering_2036:
  "read_round example_h (answering 2036 []) (Suc 0) 4096 example_session example_driver
     example_user_memory 4096 0
   = Some (Inr (0, 2036),
           example_session\<lparr>bTag := 2\<rparr>,
           example_driver
             \<lparr>usbtmc_buffer :=
                mem_write 0 [2, 1, 0xFE, 0, 0xF4, 0x07, 0, 0, 1, 0, 0, 0]
                  (mem_write 0 [2, 1, 0xFE, 0, 0xE2, 0x07, 0, 0, 0, 0x0A, 0, 0]
                     example_kernel_memory),
              usbtmc_last_write_bTag := 1, usbtmc_last_read_bTag := 2,
              urbs := [BULK_OUT 2 [2, 1, 0xFE, 0, 0xE2, 0x07, 0, 0, 0, 0x0A, 0, 0],
                       BULK_IN 0x81 2048]\<rparr>,
           mem_write 0
             (mem_read 12 2036
                (mem_write 0 [2, 1, 0xFE, 0, 0xF4, 0x07, 0, 0, 1, 0, 0, 0]
                   (mem_write 0 [2, 1, 0xFE, 0, 0xE2, 0x07, 0, 0, 0, 0x0A, 0, 0]
                      example_kernel_memory)))
             example_user_memory)"
proof -
  let ?req = "[2, 1, 0xFE, 0, 0xE2, 0x07, 0, 0, 0, 0x0A, 0, 0] :: u8 list"
  let ?log = "[BULK_OUT 2 ?req, BULK_IN 0x81 2048]"
  let ?buf = "mem_write 0 [2, 1, 0xFE, 0, 0xF4, 0x07, 0, 0, 1, 0, 0, 0]
                (mem_write 0 ?req example_kernel_memory)"
  have pl: "payload (answering 2036 [] ?log) = [2, 1, 0xFE, 0, 0xF4, 0x07, 0, 0, 1, 0, 0, 0]"
    by (simp add: answering_def le32_def)
  have n: "le32_decode (mem_read 4 4 ?buf) = 2036"
    by (simp add: le32_decode_def mem_read_def mem_write_def u32_def upt_rec)
  have "read_round example_h (answering 2036 []) (Suc 0) 4096 example_session example_driver
          example_user_memory 4096 0
        = Some (Inr (if (2036::int) < 2048 then 0 else 4096, s32 (0 + 2036)),
                example_session\<lparr>bTag := increment_bTag (bTag example_session)\<rparr>,
                example_driver\<lparr>usbtmc_buffer := ?buf,
                   usbtmc_last_write_bTag := bTag example_session,
                   usbtmc_last_read_bTag := increment_bTag (bTag example_session),
                   urbs := ?log\<rparr>,
                mem_write (nat 0) (mem_read 12 (nat 2036) ?buf) example_user_memory)"
  proof (rule read_round_received [where req = ?req and log = ?log and buf = ?buf])
    show "?req = [2, bTag example_session, NOT (bTag example_session), 0]
                   @ le32 ((if (4096::int) > 2033 then 2033 else 4096) - 12 - 3)
                   @ [term_char_enabled example_session * 2, term_char example_session, 0, 0]"
      by (simp add: example_session_fields le32_def)
    show "?log = urbs example_driver @ [BULK_OUT (bulk_out example_session) ?req,
                   BULK_IN (bulk_in example_session) 2048]"
      by (simp add: example_session_fields example_driver_def)
    show "?buf = mem_write 0 (take 2048 (payload (answering 2036 [] ?log)))
                   (mem_write 0 ?req (usbtmc_buffer example_driver))"
      by (simp add: pl example_driver_def)
    show "2036 = le32_decode (mem_read 4 4 ?buf)" by (simp add: n)
  qed (simp_all add: answering_accepts)
  then show ?thesis
    by (simp add: example_session_fields increment_bTag_def s32_def)
qed

section \<open>The bTag through the loops\<close>

lemma write_round_session:
  "\<exists>c. fst (snd (write_round h usb ubuf p g remaining done))
        = (if c then p else p\<lparr>bTag := increment_bTag (bTag p)\<rparr>)"
  unfolding write_round_def Let_def
  by (simp only: if_distrib [of "\<lambda>x. fst (snd x)"] fst_conv snd_conv if_cancel) blast

lemma write_round_bTag:
  assumes "write_round h usb ubuf p g remaining done = (res, p', g')" and "bTag p \<noteq> 0"
  shows "bTag p' \<noteq> 0"
  using assms write_round_session [where h = h and usb = usb and ubuf = ubuf and p = p
      and g = g and remaining = remaining and ?done = "done"]
  by (auto simp: increment_bTag_nonzero split: if_splits)

lemma write_loop_bTag:
  "write_loop h usb ubuf count fuel p g remaining done = Some (rv, p', g') \<Longrightarrow>
   bTag p \<noteq> 0 \<Longrightarrow> bTag p' \<noteq> 0"
proof (induction fuel arbitrary: p g remaining "done")
  case 0
  then show ?case by (simp split: if_splits)
next
  case (Suc fuel)
  show ?case
  proof (cases "remaining > 0")
    case False
    with Suc.prems show ?thesis by simp
  next
    case True
    obtain res p1 g1 where r: "write_round h usb ubuf p g remaining done = (res, p1, g1)"
      by (metis prod_cases3)
    have p1: "bTag p1 \<noteq> 0" using write_round_bTag [OF r Suc.prems(2)] .
    show ?thesis
    proof (cases res)
      case (Inl rv')
      with Suc.prems True r p1 show ?thesis by simp
    next
      case (Inr rd)
      obtain r1 d1 where "rd = (r1, d1)" by (cases rd)
      with Suc.prems True r Inr have "write_loop h usb ubuf count fuel p1 g1 r1 d1 = Some (rv, p', g')"
        by simp
      then show ?thesis using Suc.IH p1 by blast
    qed
  qed
qed

lemma read_round_session:
  "read_round h usb fuel ulimit p g umem remaining done = None
   \<or> fst (snd (the (read_round h usb fuel ulimit p g umem remaining done)))
       = p\<lparr>bTag := increment_bTag (bTag p)\<rparr>"
  unfolding read_round_def Let_def
  by (simp only: if_distrib [of "\<lambda>x. fst (snd (the x))"] if_distrib [of "\<lambda>x. x = None"]
        option.case_distrib [of "\<lambda>x. fst (snd (the x))"]
        option.case_distrib [of "\<lambda>x. x = None"]
        prod.case_distrib [of "\<lambda>x. fst (snd (the x))"]
        prod.case_distrib [of "\<lambda>x. x = None"]
        fst_conv snd_conv option.sel if_cancel option.simps simp_thms)
     (auto split: option.split)

lemma read_round_bTag:
  assumes "read_round h usb fuel ulimit p g umem remaining done = Some (res, p', g', umem')"
  shows "bTag p' \<noteq> 0"
  using assms read_round_session [where h = h and usb = usb and fuel = fuel and ulimit = ulimit
      and p = p and g = g and umem = umem and remaining = remaining and ?done = "done"]
  by (auto simp: increment_bTag_nonzero)

lemma read_loop_bTag:
  "read_loop h usb fuel ulimit p g umem remaining done = Some (res, p', g', umem') \<Longrightarrow>
   bTag p \<noteq> 0 \<Longrightarrow> bTag p' \<noteq> 0"
proof (induction fuel arbitrary: p g umem remaining "done")
  case 0
  then show ?case by (simp split: if_splits)
next
  case (Suc fuel)
  show ?case
  proof (cases "remaining > 0")
    case False
    with Suc.prems show ?thesis by simp
  next
    case True
    with Suc.prems obtain res1 p1 g1 umem1 where
      r: "read_round h usb (Suc fuel) ulimit p g umem remaining done = Some (res1, p1, g1, umem1)"
      by (auto split: option.splits)
    have p1: "bTag p1 \<noteq> 0" using read_round_bTag [OF r] .
    show ?thesis
    proof (cases res1)
      case (Inl rv')
      with Suc.prems True r p1 show ?thesis by simp
    next
      case (Inr rd)
      obtain r1 d1 where "rd = (r1, d1)" by (cases rd)
      with Suc.prems True r Inr
      have "read_loop h usb fuel ulimit p1 g1 umem1 r1 d1 = Some (res, p', g', umem')"
        by simp
      then show ?thesis using Suc.IH p1 by blast
    qed
  qed
qed

lemma usbtmc_read_bTag:
  assumes "usbtmc_read h usb reg fuel ulimit count p g umem f_pos = Some (rv, p', g', umem', f')"
    and "bTag p \<noteq> 0"
  shows "bTag p' \<noteq> 0"
proof (cases "devno p = 0")
  case True
  with assms show ?thesis by (auto simp: usbtmc_read_def split: option.splits)
next
  case False
  show ?thesis
  proof (cases "fread p \<noteq> 0 \<and> eof p \<noteq> 0")
    case True
    with assms False show ?thesis by (auto simp: usbtmc_read_def usbtmc_read_instrument_def)
  next
    case idle: False
    with assms False obtain res p1 g1 umem1 where
      l: "read_loop h usb fuel ulimit p g umem (s32 count) 0 = Some (res, p1, g1, umem1)"
      by (auto simp: usbtmc_read_def usbtmc_read_instrument_def split: option.splits)
    have "bTag p1 \<noteq> 0" using read_loop_bTag [OF l assms(2)] .
    then show ?thesis
      using assms(1) False idle l
      by (auto simp: usbtmc_read_def usbtmc_read_instrument_def Let_def
          split: option.splits sum.splits if_splits)
  qed
qed

lemma usbtmc_write_bTag:
  assumes "usbtmc_write h usb fuel ubuf count p g = Some (rv, p', g')" and "bTag p \<noteq> 0"
  shows "bTag p' \<noteq> 0"
proof (cases "devno p = 0")
  case True
  with assms show ?thesis by (simp add: usbtmc_write_def)
next
  case False
  with assms have "write_loop h usb ubuf count fuel (p\<lparr>eof := 0\<rparr>) g (s32 count) 0
                   = Some (rv, p', g')"
    by (simp add: usbtmc_write_def)
  then show ?thesis using write_loop_bTag [of h usb ubuf count fuel "p\<lparr>eof := 0\<rparr>"] assms(2)
    by simp
qed

lemma set_attribute_bTag: "bTag (snd (usbtmc_ioctl_set_attribute h arg p)) = bTag p"
  by (cases "attribute arg") (simp_all add: usbtmc_ioctl_set_attribute_def)



section \<open>Reading: when the loop ends\<close>

text \<open>
  Claim C6, as stated, fails: the test after the copy is
  \<^verbatim>\<open>n_characters<USBTMC_SIZE_IOBUFFER\<close>, not \<^verbatim>\<open>IOBUFFER-12\<close>, and \<open>remaining\<close> is
  not reduced by what was copied. A device that announces 2036 = IOBUFFER - 12
  characters to a read of 4096 bytes ends the loop after one round: one
  REQUEST\_DEV\_DEP\_MSG\_IN, one bulk IN, and 2036 is returned.
\<close>

theorem read_2036_counterexample:
  "fst (the (usbtmc_read example_h (answering 2036 []) example_registry (Suc 0) 4096 4096
               example_session example_driver example_user_memory 0)) = 2036
   \<and> urbs (fst (snd (snd (the (usbtmc_read example_h (answering 2036 []) example_registry
                                  (Suc 0) 4096 4096 example_session example_driver
                                  example_user_memory 0)))))
       = [BULK_OUT 2 [2, 1, 0xFE, 0, 0xE2, 0x07, 0, 0, 0, 0x0A, 0, 0], BULK_IN 0x81 2048]"
proof -
  have "le32_decode (le32 2036) = 2036" by (simp add: le32_def le32_decode_def u32_def)
  then show ?thesis
    using read_answering [where n = 2036 and count = 4096 and ulimit = 4096 and bs = "[]"
        and reg = example_registry and fuel = 0 and umem = example_user_memory and f_pos = 0,
        OF _ _ _ _ _ refl refl]
    by (simp add: le32_def)
qed

text \<open>
  Claim C6, amended. When a turn of the read loop comes back into the loop (both bulk
  transfers and the copy to the user succeeded), the new \<open>remaining\<close> is 0 if the
  \<^verbatim>\<open>n_characters\<close> decoded from the bytes 4..7 of the buffer is less than
  \<^verbatim>\<open>USBTMC_SIZE_IOBUFFER\<close>, and the old \<open>remaining\<close> otherwise, whatever space is left in
  the destination. So the loop ends after this turn if and only if
  \<^verbatim>\<open>n_characters < USBTMC_SIZE_IOBUFFER\<close>; otherwise it goes on with another turn, from
  the state the turn left, with \<open>remaining\<close> unchanged.
\<close>

theorem read_loop_ends_iff_below_iobuffer:
  assumes round: "read_round h usb (Suc fuel) ulimit p g umem remaining done
                  = Some (Inr (remaining', done'), p', g', umem')"
    and rem: "0 < remaining"
  shows "remaining' = (if le32_decode (mem_read 4 4 (usbtmc_buffer g')) < USBTMC_SIZE_IOBUFFER
                       then 0 else remaining)
       \<and> read_loop h usb (Suc fuel) ulimit p g umem remaining done
         = (if le32_decode (mem_read 4 4 (usbtmc_buffer g')) < USBTMC_SIZE_IOBUFFER
            then Some (Inr done', p', g', umem')
            else read_loop h usb fuel ulimit p' g' umem' remaining done')"
  using read_round_Inr [OF round] round rem by (simp add: read_loop_done)


theorem read_loop_ends_iff_below_iobuffer_witness:
  "0 < (4096::int)
   \<and> (\<exists>p' g' umem'.
         read_round example_h (answering 2036 []) (Suc 0) 4096 example_session example_driver
           example_user_memory 4096 0 = Some (Inr (0, 2036), p', g', umem')
         \<and> le32_decode (mem_read 4 4 (usbtmc_buffer g')) < USBTMC_SIZE_IOBUFFER
         \<and> read_loop example_h (answering 2036 []) (Suc 0) 4096 example_session example_driver
             example_user_memory 4096 0 = Some (Inr 2036, p', g', umem'))"
proof -
  have n: "le32_decode (mem_read 4 4
              (mem_write 0 [2, 1, 0xFE, 0, 0xF4, 0x07, 0, 0, 1, 0, 0, 0]
                 (mem_write 0 [2, 1, 0xFE, 0, 0xE2, 0x07, 0, 0, 0, 0x0A, 0, 0]
                    example_kernel_memory))) = 2036"
    by (simp add: le32_decode_def mem_read_def mem_write_def u32_def upt_rec)
  show ?thesis
    using read_loop_ends_iff_below_iobuffer [OF read_round_answering_2036] n
    by (simp add: USBTMC_SIZE_IOBUFFER_def read_round_answering_2036)
qed

section \<open>Reading: how much is copied\<close>

text \<open>
  Claim C2 fails on the code: \<^verbatim>\<open>copy_to_user\<close> is called with the \<^verbatim>\<open>n_characters\<close> of
  the device's header, which is compared neither with \<open>count\<close> nor with the size of
  the buffer. A read of 4 bytes answered by a device that announces 10 characters copies
  10 bytes to the caller and returns 10. A read answered by a header that announces 2040
  characters copies 2040 bytes from offset 12 of the 2048-byte buffer: the last four are
  the bytes behind the buffer (0xAA in the example).
\<close>

theorem read_copies_more_than_count:
  "fst (the (usbtmc_read example_h (answering 10 [1, 2, 3, 4, 5, 6, 7, 8, 9, 10])
               example_registry (Suc 0) 4096 4 example_session example_driver
               example_user_memory 0)) = 10
   \<and> mem_read 0 10
         (fst (snd (snd (snd (the (usbtmc_read example_h
              (answering 10 [1, 2, 3, 4, 5, 6, 7, 8, 9, 10]) example_registry (Suc 0) 4096 4
              example_session example_driver example_user_memory 0))))))
       = [1, 2, 3, 4, 5, 6, 7, 8, 9, 10]
   \<and> fst (the (usbtmc_read example_h (answering 2040 []) example_registry (Suc 0) 4096 4096
                 example_session example_driver example_user_memory 0)) = 2040
   \<and> mem_read 2036 4
         (fst (snd (snd (snd (the (usbtmc_read example_h (answering 2040 []) example_registry
              (Suc 0) 4096 4096 example_session example_driver example_user_memory 0))))))
       = [0xAA, 0xAA, 0xAA, 0xAA]"
proof -
  let ?bs = "[1, 2, 3, 4, 5, 6, 7, 8, 9, 10] :: u8 list"
  let ?buf10 = "mem_write 0 (take 2048 ([2, 1, 0xFE, 0] @ le32 10 @ [1, 0, 0, 0] @ ?bs))
                  (mem_write 0 ([2, 1, 0xFE, 0]
                      @ le32 ((if (4::int) > 2033 then 2033 else 4) - 12 - 3)
                      @ [0, 0x0A, 0, 0]) example_kernel_memory)"
  let ?buf = "mem_write 0 (take 2048 ([2, 1, 0xFE, 0] @ le32 2040 @ [1, 0, 0, 0] @ []))
                (mem_write 0 ([2, 1, 0xFE, 0]
                    @ le32 ((if (4096::int) > 2033 then 2033 else 4096) - 12 - 3)
                    @ [0, 0x0A, 0, 0]) example_kernel_memory)"
  have d10: "le32_decode (le32 10) = 10" by (simp add: le32_def le32_decode_def u32_def)
  have d2040: "le32_decode (le32 2040) = 2040" by (simp add: le32_def le32_decode_def u32_def)
  obtain p10 g10 where r10: "usbtmc_read example_h (answering 10 ?bs) example_registry (Suc 0)
        4096 4 example_session example_driver example_user_memory 0
      = Some (10, p10, g10, mem_write 0 (mem_read 12 (nat 10) ?buf10) example_user_memory,
              0 + 10)"
    using read_answering [OF _ _ d10 _ _ refl refl, of 4 4096 ?bs example_registry 0
        example_user_memory 0]
    by simp
  obtain p2040 g2040 where r2040: "usbtmc_read example_h (answering 2040 []) example_registry
        (Suc 0) 4096 4096 example_session example_driver example_user_memory 0
      = Some (2040, p2040, g2040,
              mem_write 0 (mem_read 12 (nat 2040) ?buf) example_user_memory, 0 + 2040)"
    using read_answering [OF _ _ d2040 _ _ refl refl, of 4096 4096 "[]" example_registry 0
        example_user_memory 0]
    by simp
  have "mem_read 0 10 (mem_write 0 (mem_read 12 (nat 10) ?buf10) example_user_memory)
        = mem_read 12 (nat 10) ?buf10"
    by (rule mem_read_write_same) simp
  also have "\<dots> = ?bs"
    by (simp add: mem_read_def mem_write_def le32_def upt_rec)
  finally have c10: "mem_read 0 10
      (mem_write 0 (mem_read 12 (nat 10) ?buf10) example_user_memory) = ?bs" .
  have beyond: "?buf (12 + i) = 0xAA" if "2036 \<le> i" for i
    using that by (simp add: mem_write_def example_kernel_memory_def)
  have c2040: "mem_read 2036 4 (mem_write 0 (mem_read 12 (nat 2040) ?buf) example_user_memory)
               = [0xAA, 0xAA, 0xAA, 0xAA]"
  proof (rule nth_equalityI)
    fix i assume "i < length (mem_read 2036 4
        (mem_write 0 (mem_read 12 (nat 2040) ?buf) example_user_memory))"
    then have i: "i < 4" by simp
    then have "mem_write 0 (mem_read 12 (nat 2040) ?buf) example_user_memory (2036 + i)
               = ?buf (12 + (2036 + i))"
      by (simp add: mem_write_def)
    also have "\<dots> = 0xAA" by (rule beyond) simp
    finally show "mem_read 2036 4
        (mem_write 0 (mem_read 12 (nat 2040) ?buf) example_user_memory) ! i
        = [0xAA, 0xAA, 0xAA, 0xAA] ! i"
      using i by (simp add: nth_Cons split: nat.split)
  qed simp
  show ?thesis
    by (simp only: r10 r2040 option.sel fst_conv snd_conv c10 c2040 simp_thms)
qed

section \<open>ABORT\_BULK\_IN against a device with data pending\<close>

text \<open>
  Claim C5 fails on the code by a slip: the condition of the second drain loop assigns
  (\<^verbatim>\<open>actual=max_size\<close>) where the first loop and \<^verbatim>\<open>usbtmc_ioctl_clear\<close> compare. After
  CHECK\_ABORT\_BULK\_IN\_STATUS has answered PENDING with byte 1 equal to 1, every bulk read
  of the example device is empty, a short packet; the driver nevertheless reads
  \<^verbatim>\<open>USBTMC_MAX_READS_TO_CLEAR_BULK_IN\<close> = 10 times and then fails with \<open>-EPERM\<close>,
  without asking for the status again.
\<close>

theorem abort_bulk_in_ignores_short_packet:
  "fst (the (usbtmc_ioctl_abort_bulk_in example_h aborting (Suc 0) example_session
               example_driver)) = - EPERM
   \<and> urbs (snd (the (usbtmc_ioctl_abort_bulk_in example_h aborting (Suc 0) example_session
                       example_driver)))
       = [CONTROL 0x03 0xA2 0 0x81 2, BULK_IN 0x81 2048, CONTROL 0x04 0xA2 0 0x81 8]
         @ replicate 10 (BULK_IN 0x81 2048)"
  by code_simp

section \<open>INSTRUMENT\_DATA\<close>

text \<open>
  Claim C7 fails on the code by a slip: the length used for the serial number is
  \<^verbatim>\<open>strlen(p_device->product)\<close>. For a device with the product string "AB" and the
  serial number "MY12345678" the manufacturer and the product arrive, and the serial
  number is cut to the two characters "MY".
\<close>

theorem instrument_data_serial_number:
  "fst (the (usbtmc_ioctl_instrument_data example_h example_registry 604 example_instrument)) = 0
   \<and> c_string (instr_manufacturer (snd (the (usbtmc_ioctl_instrument_data example_h
          example_registry 604 example_instrument)))) = Some (map of_char ''Agilent'')
   \<and> c_string (instr_product (snd (the (usbtmc_ioctl_instrument_data example_h
          example_registry 604 example_instrument)))) = Some (map of_char ''AB'')
   \<and> c_string (instr_serial_number (snd (the (usbtmc_ioctl_instrument_data example_h
          example_registry 604 example_instrument)))) = Some (map of_char ''MY'')
   \<and> c_string (serial (usbtmc_devs example_registry 1)) = Some (map of_char ''MY12345678'')"
  by code_simp


section \<open>The bTag stays in range\<close>

lemma spec_bTag_in_range_iff: "spec_bTag_in_range p = (bTag p \<noteq> 0)"
proof -
  have "uint (bTag p) < 256" using uint_lt2p [of "bTag p"] by simp
  moreover have "0 \<le> uint (bTag p)" by simp
  moreover have "(uint (bTag p) = 0) = (bTag p = 0)" by (simp add: uint_0_iff)
  ultimately show ?thesis unfolding spec_bTag_in_range_def by linarith
qed

text \<open>
  Claim C9. A session starts with bTag 1 (\<^verbatim>\<open>usbtmc_probe\<close>); the advance adds one modulo
  256 and skips 0, so that 255 is followed by 1; and the bTag of a session lies in
  [1, 255] after every operation that can change the session if it did before: after
  each turn of the write loop and of the read loop (so also when a call fails or does
  not return), after \<^verbatim>\<open>usbtmc_write\<close>, after \<^verbatim>\<open>usbtmc_read\<close> and after
  SET\_ATTRIBUTE. The other control requests do not write to the session.
\<close>

theorem bTag_stays_in_range:
  "bTag (usbtmc_probe h major n eps d) = 1
   \<and> spec_bTag_in_range (usbtmc_probe h major n eps d)
   \<and> increment_bTag b = (if b = 255 then 1 else b + 1)
   \<and> increment_bTag b \<noteq> 0
   \<and> (spec_bTag_in_range p \<longrightarrow>
        spec_bTag_in_range (fst (snd (write_round h usb ubuf p g remaining done)))
      \<and> (\<forall>res p' g' umem'.
            read_round h usb fuel ulimit p g umem remaining done = Some (res, p', g', umem')
            \<longrightarrow> spec_bTag_in_range p')
      \<and> (\<forall>rv p' g'. usbtmc_write h usb fuel ubuf count p g = Some (rv, p', g')
            \<longrightarrow> spec_bTag_in_range p')
      \<and> (\<forall>rv p' g' umem' f_pos'.
            usbtmc_read h usb reg fuel ulimit count p g umem f_pos
              = Some (rv, p', g', umem', f_pos')
            \<longrightarrow> spec_bTag_in_range p')
      \<and> spec_bTag_in_range (snd (usbtmc_ioctl_set_attribute h arg p)))"
proof -
  have "bTag (usbtmc_probe h major n eps d) = 1" by (simp add: usbtmc_probe_def)
  moreover have "spec_bTag_in_range (usbtmc_probe h major n eps d)"
    by (simp add: spec_bTag_in_range_iff usbtmc_probe_def)
  moreover have "spec_bTag_in_range (fst (snd (write_round h usb ubuf p g remaining done)))"
    if "spec_bTag_in_range p"
    using that write_round_bTag [of h usb ubuf p g remaining "done"
        "fst (write_round h usb ubuf p g remaining done)"
        "fst (snd (write_round h usb ubuf p g remaining done))"
        "snd (snd (write_round h usb ubuf p g remaining done))"]
    by (simp add: spec_bTag_in_range_iff)
  ultimately show ?thesis
    using increment_bTag_eq [of b] increment_bTag_nonzero [of b]
    by (auto simp: spec_bTag_in_range_iff set_attribute_bTag
        dest: read_round_bTag usbtmc_write_bTag usbtmc_read_bTag)
qed

theorem bTag_stays_in_range_witness:
  "spec_bTag_in_range example_session
   \<and> (\<exists>rv p' g'. usbtmc_write example_h accepting (Suc (Suc (Suc 0))) (replicate 4096 0x41)
                    4096 example_session example_driver = Some (rv, p', g')
         \<and> spec_bTag_in_range p')
   \<and> (\<exists>res p' g' umem'.
         read_round example_h (answering 2036 []) (Suc 0) 4096 example_session example_driver
           example_user_memory 4096 0 = Some (res, p', g', umem')
         \<and> spec_bTag_in_range p')"
proof -
  have r: "spec_bTag_in_range example_session"
    by (simp add: spec_bTag_in_range_iff example_session_fields)
  have "\<forall>log. 0 \<le> retval (accepting log)" by (simp add: accepting_def)
  then obtain rv p' g' where w: "usbtmc_write example_h accepting (Suc (Suc (Suc 0)))
      (replicate 4096 0x41) 4096 example_session example_driver = Some (rv, p', g')"
    using write_loop_4096 [of accepting "replicate 4096 0x41" example_session example_h 0
        example_driver]
    by (auto simp: example_session_fields example_h_def)
  have a: "spec_bTag_in_range p'"
    by (rule bTag_stays_in_range [THEN conjunct2, THEN conjunct2, THEN conjunct2,
          THEN conjunct2, THEN mp, OF r, THEN conjunct2, THEN conjunct2, THEN conjunct1,
          rule_format, OF w])
  have b: "spec_bTag_in_range (example_session\<lparr>bTag := 2\<rparr>)"
    by (rule bTag_stays_in_range [THEN conjunct2, THEN conjunct2, THEN conjunct2,
          THEN conjunct2, THEN mp, OF r, THEN conjunct2, THEN conjunct1,
          rule_format, OF read_round_answering_2036])
  show ?thesis
    using r w a b read_round_answering_2036 by blast
qed


end
